theory Spec2Isabelle
  imports
    Main
    "HOL-Library.Char_ord"
    "HOL-Library.List_Lexorder"
    "HOL-Library.AList"
    "HOL-Library.Sublist"
    "HOL-Library.Multiset"
begin

section \<open>Python values\<close>

text \<open>
  The values that travel through the program are what \<^verbatim>\<open>json.loads\<close> produces and
  what the project store holds: \<^verbatim>\<open>None\<close>, booleans, numbers, strings, lists and
  dictionaries with string keys. A dictionary is an association list in insertion
  order; a lookup reads the first binding of a key. Floating-point numbers are not
  modelled, and values are compared structurally.
\<close>

datatype json =
    JNull
  | JBool bool
  | JNum int
  | JStr string
  | JArr "json list"
  | JObj "(string \<times> json) list"

type_synonym dict = "(string \<times> json) list"

text \<open>The exceptions that can leave a function of the program.\<close>

datatype exc =
    KeyError string
  | TypeError
  | AttributeError
  | OSError
  | UnicodeDecodeError

text \<open>
  A Python dictionary holds a key once: an association list stands for a dictionary
  when no key occurs twice in it.
\<close>

definition is_dict :: "dict \<Rightarrow> bool" where
  "is_dict d = distinct (map fst d)"

text \<open>\<^verbatim>\<open>d[k]\<close>: raises \<^verbatim>\<open>KeyError\<close> when the key is missing.\<close>

definition py_getitem :: "dict \<Rightarrow> string \<Rightarrow> exc + json" where
  "py_getitem d k = (case map_of d k of None \<Rightarrow> Inl (KeyError k) | Some v \<Rightarrow> Inr v)"

text \<open>\<^verbatim>\<open>d.get(k)\<close>: \<^verbatim>\<open>None\<close> when the key is missing.\<close>

definition py_get :: "dict \<Rightarrow> string \<Rightarrow> json" where
  "py_get d k = (case map_of d k of None \<Rightarrow> JNull | Some v \<Rightarrow> v)"

text \<open>\<^verbatim>\<open>d[k] = v\<close> keeps the position of an existing key and appends a new one.\<close>

definition py_setitem :: "string \<Rightarrow> json \<Rightarrow> dict \<Rightarrow> dict" where
  "py_setitem k v d = AList.update k v d"

text \<open>\<^verbatim>\<open>{**a, **b}\<close>: the bindings of \<open>b\<close> are stored into a copy of \<open>a\<close>, in order.\<close>

definition dict_merge :: "dict \<Rightarrow> dict \<Rightarrow> dict" where
  "dict_merge a b = fold (\<lambda>(k, v). py_setitem k v) b a"

text \<open>Characters that cannot be written inside a string literal.\<close>

definition apostrophe :: string where
  "apostrophe = [CHR 0x27]"

definition dquote :: string where
  "dquote = [CHR 0x22]"

definition newline :: string where
  "newline = [CHR 0x0A]"

section \<open>A reader for a fragment of JSON\<close>

text \<open>
  \<^verbatim>\<open>json.loads\<close> belongs to the Python library, and the functions below take it as a
  parameter. The examples need one reader to run with: \<open>json_loads\<close> reads the JSON
  texts built from \<^verbatim>\<open>null\<close>, \<^verbatim>\<open>true\<close>, \<^verbatim>\<open>false\<close>, integers, strings without escape
  sequences, arrays and objects, and rejects every other text. A later binding of a key
  replaces an earlier one, as in \<^verbatim>\<open>json.loads\<close>.
\<close>

datatype token =
    TLBrack | TRBrack | TLBrace | TRBrace | TComma | TColon
  | TString string | TNumber int | TTrue | TFalse | TNull

datatype lex_state = LStart | LString string | LNumber bool string | LWord string

definition is_ws :: "char \<Rightarrow> bool" where
  "is_ws c = (c \<in> set [CHR 0x20, CHR 0x09, CHR 0x0A, CHR 0x0D])"

definition is_digit :: "char \<Rightarrow> bool" where
  "is_digit c = (c \<in> set ''0123456789'')"

definition is_letter :: "char \<Rightarrow> bool" where
  "is_letter c = (c \<in> set ''abcdefghijklmnopqrstuvwxyz'')"

definition digit_value :: "char \<Rightarrow> nat" where
  "digit_value c = of_char c - 48"

definition number_token :: "bool \<Rightarrow> string \<Rightarrow> token option" where
  "number_token negative rev_digits =
     (let ds = rev rev_digits
      in if ds = [] \<or> (length ds > 1 \<and> hd ds = CHR ''0'') then None
         else (let n = int (foldl (\<lambda>a c. 10 * a + digit_value c) 0 ds)
               in Some (TNumber (if negative then - n else n))))"

definition word_token :: "string \<Rightarrow> token option" where
  "word_token rev_letters =
     (let w = rev rev_letters
      in if w = ''true'' then Some TTrue
         else if w = ''false'' then Some TFalse
         else if w = ''null'' then Some TNull
         else None)"

definition punct_token :: "char \<Rightarrow> token option" where
  "punct_token c =
     (if c = CHR ''['' then Some TLBrack
      else if c = CHR '']'' then Some TRBrack
      else if c = CHR ''{'' then Some TLBrace
      else if c = CHR ''}'' then Some TRBrace
      else if c = CHR '','' then Some TComma
      else if c = CHR '':'' then Some TColon
      else None)"

definition cons_token :: "token option \<Rightarrow> token list option \<Rightarrow> token list option" where
  "cons_token t ts = (case t of None \<Rightarrow> None | Some x \<Rightarrow> map_option (Cons x) ts)"

text \<open>After a number or a word comes white space or a punctuation mark.\<close>

definition after_scalar :: "token option \<Rightarrow> char \<Rightarrow> token list option \<Rightarrow> token list option" where
  "after_scalar t c rest =
     (if is_ws c then cons_token t rest
      else cons_token t (cons_token (punct_token c) rest))"

fun lex :: "lex_state \<Rightarrow> string \<Rightarrow> token list option" where
  "lex LStart [] = Some []"
| "lex LStart (c # cs) =
     (if is_ws c then lex LStart cs
      else if c = CHR 0x22 then lex (LString []) cs
      else if c = CHR ''-'' then lex (LNumber True []) cs
      else if is_digit c then lex (LNumber False [c]) cs
      else if is_letter c then lex (LWord [c]) cs
      else cons_token (punct_token c) (lex LStart cs))"
| "lex (LString acc) [] = None"
| "lex (LString acc) (c # cs) =
     (if c = CHR 0x22 then cons_token (Some (TString (rev acc))) (lex LStart cs)
      else if c = CHR 0x5C \<or> of_char c < (32::nat) then None
      else lex (LString (c # acc)) cs)"
| "lex (LNumber negative acc) [] = cons_token (number_token negative acc) (Some [])"
| "lex (LNumber negative acc) (c # cs) =
     (if is_digit c then lex (LNumber negative (c # acc)) cs
      else after_scalar (number_token negative acc) c (lex LStart cs))"
| "lex (LWord acc) [] = cons_token (word_token acc) (Some [])"
| "lex (LWord acc) (c # cs) =
     (if is_letter c then lex (LWord (c # acc)) cs
      else after_scalar (word_token acc) c (lex LStart cs))"

datatype frame = ArrF "json list" | ObjK "(string \<times> json) list" | ObjV "(string \<times> json) list" string

datatype pstate = PValue | PValueOrEnd | PKey | PKeyOrEnd | PColon string | PAfter json

definition start_value :: "token \<Rightarrow> frame list \<Rightarrow> (pstate \<times> frame list) option" where
  "start_value t stack =
     (case t of
        TLBrack \<Rightarrow> Some (PValueOrEnd, ArrF [] # stack)
      | TLBrace \<Rightarrow> Some (PKeyOrEnd, ObjK [] # stack)
      | TString s \<Rightarrow> Some (PAfter (JStr s), stack)
      | TNumber n \<Rightarrow> Some (PAfter (JNum n), stack)
      | TTrue \<Rightarrow> Some (PAfter (JBool True), stack)
      | TFalse \<Rightarrow> Some (PAfter (JBool False), stack)
      | TNull \<Rightarrow> Some (PAfter JNull, stack)
      | _ \<Rightarrow> None)"

text \<open>One token moves the reader from one configuration to the next.\<close>

definition parse_step :: "pstate \<times> frame list \<Rightarrow> token \<Rightarrow> (pstate \<times> frame list) option" where
  "parse_step c t =
     (case c of (ps, stack) \<Rightarrow>
        (case ps of
           PValue \<Rightarrow> start_value t stack
         | PValueOrEnd \<Rightarrow>
             (case t of
                TRBrack \<Rightarrow>
                  (case stack of
                     ArrF acc # rest \<Rightarrow> Some (PAfter (JArr (rev acc)), rest)
                   | _ \<Rightarrow> None)
              | _ \<Rightarrow> start_value t stack)
         | PKeyOrEnd \<Rightarrow>
             (case t of
                TRBrace \<Rightarrow>
                  (case stack of
                     ObjK d # rest \<Rightarrow> Some (PAfter (JObj d), rest)
                   | _ \<Rightarrow> None)
              | TString k \<Rightarrow> Some (PColon k, stack)
              | _ \<Rightarrow> None)
         | PKey \<Rightarrow> (case t of TString k \<Rightarrow> Some (PColon k, stack) | _ \<Rightarrow> None)
         | PColon k \<Rightarrow>
             (case t of
                TColon \<Rightarrow>
                  (case stack of
                     ObjK d # rest \<Rightarrow> Some (PValue, ObjV d k # rest)
                   | _ \<Rightarrow> None)
              | _ \<Rightarrow> None)
         | PAfter v \<Rightarrow>
             (case stack of
                ArrF acc # rest \<Rightarrow>
                  (case t of
                     TComma \<Rightarrow> Some (PValue, ArrF (v # acc) # rest)
                   | TRBrack \<Rightarrow> Some (PAfter (JArr (rev (v # acc))), rest)
                   | _ \<Rightarrow> None)
              | ObjV d k # rest \<Rightarrow>
                  (case t of
                     TComma \<Rightarrow> Some (PKey, ObjK (AList.update k v d) # rest)
                   | TRBrace \<Rightarrow> Some (PAfter (JObj (AList.update k v d)), rest)
                   | _ \<Rightarrow> None)
              | _ \<Rightarrow> None)))"

fun parse_tokens :: "pstate \<times> frame list \<Rightarrow> token list \<Rightarrow> (pstate \<times> frame list) option" where
  "parse_tokens c [] = Some c"
| "parse_tokens c (t # ts) =
     (case parse_step c t of None \<Rightarrow> None | Some c' \<Rightarrow> parse_tokens c' ts)"

definition json_loads :: "string \<Rightarrow> json option" where
  "json_loads s =
     (case lex LStart s of
        None \<Rightarrow> None
      | Some ts \<Rightarrow>
          (case parse_tokens (PValue, []) ts of
             Some (PAfter v, []) \<Rightarrow> Some v
           | _ \<Rightarrow> None))"

section \<open>The worker (core/pm2\_worker.py)\<close>

subsection \<open>The world outside\<close>

text \<open>
  Every command line is run by \<^verbatim>\<open>subprocess.check_output\<close> with \<^verbatim>\<open>shell=True\<close>,
  \<^verbatim>\<open>text=True\<close> and a timeout, so it is the shell that looks for the program.
  \<^verbatim>\<open>FileNotFoundError\<close> is raised when the shell itself cannot be started, and then
  for every command line alike; a program that the shell does not find is a non-zero
  exit (status 127) with the message of the shell as its output.

  Once the shell has started, the call either completes with the captured output, a
  \<^verbatim>\<open>str\<close>, or raises. \<^verbatim>\<open>CalledProcessError\<close> carries the captured output, a \<^verbatim>\<open>str\<close> as
  well. \<^verbatim>\<open>TimeoutExpired\<close> carries what was captured before the timeout: \<^verbatim>\<open>None\<close> when
  nothing was read; otherwise the raw \<^verbatim>\<open>bytes\<close> on POSIX, where the output is decoded
  only when the process ends, and a \<^verbatim>\<open>str\<close> on Windows. Any other exception is not
  caught by the worker.
\<close>

datatype captured = Text string | Bytes string

datatype exec_outcome =
    Completed string
  | CalledProcessError string
  | TimeoutExpired "captured option"
  | OtherException exc

datatype os = NT | Posix

text \<open>
  One slot of the worker runs the process-table query at most once, one control
  command and \<^verbatim>\<open>pm2 jlist\<close> at most once, so the outcome of a command is given per
  command line: \<open>os_query\<close> and \<open>exec\<close> say what happens once the shell has started,
  and \<open>shell_found\<close> whether it can be started. \<open>bytes_decode\<close> is the decoding that
  \<^verbatim>\<open>json.loads\<close> applies to a \<^verbatim>\<open>bytes\<close> object before it parses it (\<open>None\<close>:
  \<^verbatim>\<open>UnicodeDecodeError\<close>). \<open>tmp_prefix\<close> is the path \<^verbatim>\<open>NamedTemporaryFile\<close> chooses,
  without its suffix (\<open>None\<close>: the file cannot be created); \<open>dump_ok\<close> says whether
  writing the descriptor succeeds.
\<close>

record env =
  os_name :: os
  shell_found :: bool
  os_query :: exec_outcome
  exec :: "string \<Rightarrow> exec_outcome"
  bytes_decode :: "string \<Rightarrow> string option"
  tmp_prefix :: "string option"
  dump_ok :: bool

text \<open>
  An f-string is kept as its parts, the literal text and the interpolated values, so
  that \<^verbatim>\<open>str()\<close> of a value that is not a string needs no model.
\<close>

datatype fpart = Lit string | Val json

text \<open>
  The signals, with their arguments as the connected slots receive them: each
  argument declared \<^verbatim>\<open>str\<close> is converted when the signal is emitted (see \<open>signal_str\<close>
  below).
\<close>

datatype signal =
    ListReady string
  | LogsReady string string
  | ActionFinished string "fpart list"
  | Error string
  | DaemonStatusReady bool

text \<open>What the worker does to the world, in the order it does it.\<close>

datatype event =
    Probe
  | Run string
  | Emit signal
  | CreateFile string
  | Dump string json
  | RemoveFile string

record wstate =
  trace :: "event list"
  files :: "string set"

type_synonym 'a io = "wstate \<Rightarrow> (exc + 'a) \<times> wstate"

definition return_io :: "'a \<Rightarrow> 'a io" where
  "return_io x st = (Inr x, st)"

definition raise_io :: "exc \<Rightarrow> 'a io" where
  "raise_io e st = (Inl e, st)"

text \<open>Sequencing: an exception ends the rest of the block.\<close>

definition bind_io :: "'a io \<Rightarrow> ('a \<Rightarrow> 'b io) \<Rightarrow> 'b io" where
  "bind_io m f st = (case m st of (Inl e, st') \<Rightarrow> (Inl e, st') | (Inr x, st') \<Rightarrow> f x st')"

text \<open>
  \<^verbatim>\<open>try: m finally: fin\<close>. The handler always runs; an exception of the handler
  replaces the outcome of the body.
\<close>

definition finally_io :: "'a io \<Rightarrow> unit io \<Rightarrow> 'a io" where
  "finally_io m fin st =
     (case m st of (r, st') \<Rightarrow>
        (case fin st' of (Inl e, st'') \<Rightarrow> (Inl e, st'') | (Inr _, st'') \<Rightarrow> (r, st'')))"

definition log :: "event \<Rightarrow> unit io" where
  "log e st = (Inr (), st\<lparr>trace := trace st @ [e]\<rparr>)"

definition emit :: "signal \<Rightarrow> unit io" where
  "emit s = log (Emit s)"

definition when_io :: "bool \<Rightarrow> unit io \<Rightarrow> unit io" where
  "when_io b m = (if b then m else return_io ())"

text \<open>The truth value of a \<^verbatim>\<open>str\<close> or \<^verbatim>\<open>bytes\<close> object: it is not empty.\<close>

definition truthy :: "captured \<Rightarrow> bool" where
  "truthy obj = (case obj of Text s \<Rightarrow> s \<noteq> [] | Bytes b \<Rightarrow> b \<noteq> [])"

text \<open>\<^verbatim>\<open>if output: f(output)\<close>, for an output that is an object or \<^verbatim>\<open>None\<close>.\<close>

definition if_output :: "captured option \<Rightarrow> (captured \<Rightarrow> unit io) \<Rightarrow> unit io" where
  "if_output output f =
     (case output of
        None \<Rightarrow> return_io ()
      | Some obj \<Rightarrow> if truthy obj then f obj else return_io ())"

definition create_file :: "string \<Rightarrow> unit io" where
  "create_file f st = (Inr (), st\<lparr>trace := trace st @ [CreateFile f], files := insert f (files st)\<rparr>)"

definition remove_file :: "string \<Rightarrow> unit io" where
  "remove_file f st = (Inr (), st\<lparr>trace := trace st @ [RemoveFile f], files := files st - {f}\<rparr>)"

definition path_exists :: "string \<Rightarrow> wstate \<Rightarrow> bool" where
  "path_exists f st = (f \<in> files st)"

text \<open>
  \<^verbatim>\<open>repr\<close> of a \<^verbatim>\<open>bytes\<close> object: the letter \<open>b\<close> and the bytes between quotes. The
  quote is the apostrophe, unless the bytes hold an apostrophe and no double quote. The
  quote and the backslash are written after a backslash; tab, line feed and carriage
  return are written as a backslash and the letter \<open>t\<close>, \<open>n\<close> or \<open>r\<close>; every other byte
  outside the printable ASCII range is written as a backslash, the letter \<open>x\<close> and two
  hexadecimal digits.
\<close>

definition backslash :: char where
  "backslash = CHR 0x5C"

definition hex_digit :: "nat \<Rightarrow> char" where
  "hex_digit n = ''0123456789abcdef'' ! n"

definition repr_byte :: "char \<Rightarrow> char \<Rightarrow> string" where
  "repr_byte quote c =
     (if c = quote \<or> c = backslash then [backslash, c]
      else if c = CHR 0x09 then [backslash, CHR ''t'']
      else if c = CHR 0x0A then [backslash, CHR ''n'']
      else if c = CHR 0x0D then [backslash, CHR ''r'']
      else if c < CHR 0x20 \<or> CHR 0x7F \<le> c
        then [backslash, CHR ''x'',
              hex_digit (of_char c div 16), hex_digit (of_char c mod 16)]
      else [c])"

definition repr_bytes :: "string \<Rightarrow> string" where
  "repr_bytes b =
     (let quote = (if CHR 0x27 \<in> set b \<and> CHR 0x22 \<notin> set b then CHR 0x22 else CHR 0x27)
      in CHR ''b'' # quote # concat (map (repr_byte quote) b) @ [quote])"

text \<open>
  \<^verbatim>\<open>str(obj)\<close>, which is what an f-string writes: a \<^verbatim>\<open>str\<close> is itself, a \<^verbatim>\<open>bytes\<close>
  object is written as \<^verbatim>\<open>repr\<close> writes it.
\<close>

definition py_str :: "captured \<Rightarrow> string" where
  "py_str obj = (case obj of Text s \<Rightarrow> s | Bytes b \<Rightarrow> repr_bytes b)"

definition str_of_output :: "captured option \<Rightarrow> string" where
  "str_of_output output = (case output of None \<Rightarrow> ''None'' | Some obj \<Rightarrow> py_str obj)"

text \<open>
  An argument of a signal that is declared \<^verbatim>\<open>str\<close> (every text argument of the
  worker's signals, and the list of the preloader's \<^verbatim>\<open>finished\<close> signal): a \<^verbatim>\<open>str\<close>
  reaches the slot as it is; a \<^verbatim>\<open>bytes\<close> object is not a \<^verbatim>\<open>str\<close>, and PySide6 hands
  the slot the empty string in its place.
\<close>

definition signal_str :: "captured \<Rightarrow> string" where
  "signal_str obj = (case obj of Text s \<Rightarrow> s | Bytes b \<Rightarrow> [])"

subsection \<open>The liveness prober\<close>

text \<open>
  The string tests of the Windows branch, on ASCII text: \<^verbatim>\<open>"ProcessId" in output\<close>,
  \<^verbatim>\<open>output.strip()\<close> and \<^verbatim>\<open>splitlines()\<close>.
\<close>

fun contains :: "string \<Rightarrow> string \<Rightarrow> bool" where
  "contains needle [] = (needle = [])"
| "contains needle (c # cs) = (prefix needle (c # cs) \<or> contains needle cs)"

definition is_space :: "char \<Rightarrow> bool" where
  "is_space c = (c \<in> set [CHR 0x09, CHR 0x0A, CHR 0x0B, CHR 0x0C, CHR 0x0D,
                           CHR 0x1C, CHR 0x1D, CHR 0x1E, CHR 0x1F, CHR 0x20])"

definition strip :: "string \<Rightarrow> string" where
  "strip s = rev (dropWhile is_space (rev (dropWhile is_space s)))"

definition is_linebreak :: "char \<Rightarrow> bool" where
  "is_linebreak c = (c \<in> set [CHR 0x0A, CHR 0x0B, CHR 0x0C, CHR 0x1C, CHR 0x1D, CHR 0x1E])"

fun splitlines_from :: "string \<Rightarrow> string \<Rightarrow> string list" where
  "splitlines_from cur [] = (if cur = [] then [] else [rev cur])"
| "splitlines_from cur [c] =
     (if c = CHR 0x0D \<or> is_linebreak c then [rev cur] else [rev (c # cur)])"
| "splitlines_from cur (c # d # cs) =
     (if c = CHR 0x0D \<and> d = CHR 0x0A then rev cur # splitlines_from [] cs
      else if c = CHR 0x0D \<or> is_linebreak c then rev cur # splitlines_from [] (d # cs)
      else splitlines_from (c # cur) (d # cs))"

definition splitlines :: "string \<Rightarrow> string list" where
  "splitlines s = splitlines_from [] s"

text \<open>
  \<^verbatim>\<open>_is_daemon_running\<close>: a query of the process table, never a pm2 command, run
  through the shell like every other command. A missing shell
  (\<^verbatim>\<open>FileNotFoundError\<close>), a non-zero exit and a timeout all mean not running.
\<close>

definition is_daemon_running :: "env \<Rightarrow> bool io" where
  "is_daemon_running env =
     bind_io (log Probe) (\<lambda>_.
       if \<not> shell_found env then return_io False
       else
         case os_query env of
           Completed output \<Rightarrow>
             return_io (case os_name env of
                          NT \<Rightarrow> contains ''ProcessId'' output
                                 \<and> 1 < length (splitlines (strip output))
                        | Posix \<Rightarrow> True)
         | CalledProcessError _ \<Rightarrow> return_io False
         | TimeoutExpired _ \<Rightarrow> return_io False
         | OtherException e \<Rightarrow> raise_io e)"

subsection \<open>The command executor\<close>

definition not_found_message :: string where
  "not_found_message =
     ''Error: '' @ apostrophe @ ''pm2'' @ apostrophe
       @ '' command not found. Is PM2 installed and in your system'' @ apostrophe @ ''s PATH?''"

definition failed_message :: "string \<Rightarrow> captured option \<Rightarrow> string" where
  "failed_message command output =
     ''Command failed: '' @ command @ newline @ newline @ ''Output:'' @ newline
       @ str_of_output output"

text \<open>The shared handler of \<^verbatim>\<open>CalledProcessError\<close> and \<^verbatim>\<open>TimeoutExpired\<close>.\<close>

definition command_failed :: "string \<Rightarrow> bool \<Rightarrow> captured option \<Rightarrow> captured option io" where
  "command_failed command can_fail output =
     bind_io (when_io (\<not> can_fail) (emit (Error (failed_message command output))))
       (\<lambda>_. return_io output)"

text \<open>
  \<^verbatim>\<open>_run_command\<close>. The handler of \<^verbatim>\<open>FileNotFoundError\<close> is the branch of the missing
  shell; both other exceptions have the attribute \<^verbatim>\<open>output\<close>, which is handed back
  as it is.
\<close>

definition run_command :: "env \<Rightarrow> string \<Rightarrow> bool \<Rightarrow> captured option io" where
  "run_command env command can_fail =
     bind_io (log (Run command)) (\<lambda>_.
       if \<not> shell_found env then
         bind_io (emit (Error not_found_message)) (\<lambda>_. return_io None)
       else
         case exec env command of
           Completed result \<Rightarrow> return_io (Some (Text result))
         | CalledProcessError output \<Rightarrow> command_failed command can_fail (Some (Text output))
         | TimeoutExpired output \<Rightarrow> command_failed command can_fail output
         | OtherException e \<Rightarrow> raise_io e)"

text \<open>
  What \<^verbatim>\<open>_run_command\<close> hands back for each outcome of a command that the shell ran,
  and the outcomes it handles.
\<close>

definition returned_output :: "exec_outcome \<Rightarrow> captured option" where
  "returned_output r =
     (case r of
        Completed result \<Rightarrow> Some (Text result)
      | CalledProcessError output \<Rightarrow> Some (Text output)
      | TimeoutExpired output \<Rightarrow> output
      | OtherException e \<Rightarrow> None)"

definition handled :: "exec_outcome \<Rightarrow> bool" where
  "handled r = (case r of OtherException e \<Rightarrow> False | _ \<Rightarrow> True)"


text \<open>The events by which a control operation reports on its command.\<close>

definition is_report :: "event \<Rightarrow> bool" where
  "is_report e =
     (case e of
        Emit (ActionFinished title message) \<Rightarrow> True
      | Emit (Error message) \<Rightarrow> True
      | _ \<Rightarrow> False)"

subsection \<open>Queries\<close>

text \<open>
  \<^verbatim>\<open>json.loads\<close> on a \<^verbatim>\<open>str\<close> is a parameter \<open>loads\<close> of every function that calls
  it: \<open>None\<close> stands for \<^verbatim>\<open>JSONDecodeError\<close>. Given a \<^verbatim>\<open>bytes\<close> object, \<^verbatim>\<open>json.loads\<close>
  decodes it first and raises \<^verbatim>\<open>UnicodeDecodeError\<close> when it cannot; that exception is
  a \<^verbatim>\<open>ValueError\<close> but neither a \<^verbatim>\<open>JSONDecodeError\<close> nor a \<^verbatim>\<open>TypeError\<close>, so the two
  queries below do not catch it. \<open>Inl\<close> is such an exception, \<open>Inr None\<close> is
  \<^verbatim>\<open>JSONDecodeError\<close>.
\<close>

definition py_json_loads ::
  "(string \<Rightarrow> json option) \<Rightarrow> env \<Rightarrow> captured \<Rightarrow> exc + json option" where
  "py_json_loads loads env obj =
     (case obj of
        Text s \<Rightarrow> Inr (loads s)
      | Bytes b \<Rightarrow>
          (case bytes_decode env b of
             None \<Rightarrow> Inl UnicodeDecodeError
           | Some s \<Rightarrow> Inr (loads s)))"


definition get_process_list :: "(string \<Rightarrow> json option) \<Rightarrow> env \<Rightarrow> unit io" where
  "get_process_list loads env =
     bind_io (is_daemon_running env) (\<lambda>is_running.
       bind_io (emit (DaemonStatusReady is_running)) (\<lambda>_.
         if is_running then
           bind_io (run_command env ''pm2 jlist'' True) (\<lambda>process_list_json.
             case process_list_json of
               None \<Rightarrow> emit (ListReady ''[]'')
             | Some obj \<Rightarrow>
                 (case py_json_loads loads env obj of
                    Inl e \<Rightarrow> raise_io e
                  | Inr (Some _) \<Rightarrow> emit (ListReady (signal_str obj))
                  | Inr None \<Rightarrow> emit (ListReady ''[]'')))
         else emit (ListReady ''[]'')))"



subsection \<open>Control operations\<close>

definition start_daemon :: "(string \<Rightarrow> json option) \<Rightarrow> env \<Rightarrow> unit io" where
  "start_daemon loads env =
     bind_io (run_command env ''pm2 resurrect'' True) (\<lambda>_.
       bind_io (emit (ActionFinished ''PM2 Daemon''
                        [Lit ''Attempting to start/resurrect PM2 Daemon...''])) (\<lambda>_.
         get_process_list loads env))"

definition kill_daemon :: "(string \<Rightarrow> json option) \<Rightarrow> env \<Rightarrow> unit io" where
  "kill_daemon loads env =
     bind_io (run_command env ''pm2 kill'' False) (\<lambda>output.
       bind_io (when_io (output \<noteq> None)
                  (emit (ActionFinished ''PM2 Daemon Killed''
                           [Lit ''The PM2 daemon has been stopped.'']))) (\<lambda>_.
         get_process_list loads env))"

definition pm2_keys :: "string list" where
  "pm2_keys =
     [''name'', ''script'', ''args'', ''interpreter'', ''node_args'', ''watch'',
      ''max_memory_restart'', ''env'', ''exec_mode'', ''instances'', ''autorestart'',
      ''cron_restart'', ''merge_logs'', ''log_date_format'', ''out_file'', ''error_file'']"

text \<open>The filtered copy of the project data that becomes the descriptor.\<close>

definition app_config_of :: "dict \<Rightarrow> dict" where
  "app_config_of project_data =
     (let app_config =
            fold (\<lambda>key cfg.
                    case map_of project_data key of
                      None \<Rightarrow> cfg
                    | Some v \<Rightarrow> if v \<noteq> JNull \<and> v \<noteq> JStr [] then py_setitem key v cfg else cfg)
                 pm2_keys []
      in case map_of project_data ''path'' of
           None \<Rightarrow> app_config
         | Some p \<Rightarrow> py_setitem ''cwd'' p app_config)"

definition start_command :: "string \<Rightarrow> string" where
  "start_command temp_eco_file = ''pm2 start '' @ dquote @ temp_eco_file @ dquote"

text \<open>
  The body of the \<^verbatim>\<open>try\<close> block of \<^verbatim>\<open>start_process\<close>, once the descriptor file has
  its name.
\<close>

definition start_body :: "env \<Rightarrow> dict \<Rightarrow> string \<Rightarrow> unit io" where
  "start_body env app_config temp_eco_file =
     bind_io (create_file temp_eco_file) (\<lambda>_.
       if dump_ok env then
         bind_io (log (Dump temp_eco_file (JObj [(''apps'', JArr [JObj app_config])]))) (\<lambda>_.
           bind_io (run_command env (start_command temp_eco_file) False) (\<lambda>output.
             if_output output (\<lambda>obj.
               case py_getitem app_config ''name'' of
                 Inl e \<Rightarrow> raise_io e
               | Inr n \<Rightarrow>
                   emit (ActionFinished ''Process Started''
                           [Lit (''Attempted to start '' @ apostrophe), Val n,
                            Lit (apostrophe @ ''.'' @ newline), Lit (py_str obj)]))))
       else raise_io OSError)"

text \<open>
  The \<^verbatim>\<open>finally\<close> block removes the descriptor when its name is set, not empty,
  and the file exists.
\<close>

definition remove_descriptor :: "string option \<Rightarrow> unit io" where
  "remove_descriptor temp_eco_file =
     (case temp_eco_file of
        None \<Rightarrow> return_io ()
      | Some f \<Rightarrow> (\<lambda>st.
          if f \<noteq> [] \<and> path_exists f st then remove_file f st else return_io () st))"

definition temp_name :: "env \<Rightarrow> string option" where
  "temp_name env = map_option (\<lambda>p. p @ ''.json'') (tmp_prefix env)"

definition start_process :: "(string \<Rightarrow> json option) \<Rightarrow> env \<Rightarrow> dict \<Rightarrow> unit io" where
  "start_process loads env project_data =
     (let app_config = app_config_of project_data;
          temp_eco_file = temp_name env
      in finally_io
           (case temp_eco_file of
              None \<Rightarrow> raise_io OSError
            | Some f \<Rightarrow> start_body env app_config f)
           (bind_io (remove_descriptor temp_eco_file) (\<lambda>_. get_process_list loads env)))"

definition stop_process :: "(string \<Rightarrow> json option) \<Rightarrow> env \<Rightarrow> string \<Rightarrow> unit io" where
  "stop_process loads env proc_id_or_name =
     bind_io (run_command env (''pm2 stop '' @ proc_id_or_name) False) (\<lambda>output.
       bind_io (if_output output (\<lambda>obj.
                  emit (ActionFinished ''Process Stopped''
                           [Lit (''Stopped '' @ apostrophe @ proc_id_or_name @ apostrophe
                                 @ ''.'' @ newline @ py_str obj)]))) (\<lambda>_.
         get_process_list loads env))"

definition restart_process :: "(string \<Rightarrow> json option) \<Rightarrow> env \<Rightarrow> string \<Rightarrow> unit io" where
  "restart_process loads env proc_id_or_name =
     bind_io (run_command env (''pm2 restart '' @ proc_id_or_name) False) (\<lambda>output.
       bind_io (if_output output (\<lambda>obj.
                  emit (ActionFinished ''Process Restarted''
                           [Lit (''Restarted '' @ apostrophe @ proc_id_or_name @ apostrophe
                                 @ ''.'' @ newline @ py_str obj)]))) (\<lambda>_.
         get_process_list loads env))"

definition delete_process :: "(string \<Rightarrow> json option) \<Rightarrow> env \<Rightarrow> string \<Rightarrow> unit io" where
  "delete_process loads env proc_id_or_name =
     bind_io (run_command env (''pm2 delete '' @ proc_id_or_name) False) (\<lambda>output.
       bind_io (if_output output (\<lambda>obj.
                  emit (ActionFinished ''Process Deleted''
                           [Lit (''Deleted '' @ apostrophe @ proc_id_or_name @ apostrophe
                                 @ '' from PM2.'' @ newline @ py_str obj)]))) (\<lambda>_.
         get_process_list loads env))"

definition reload_process :: "(string \<Rightarrow> json option) \<Rightarrow> env \<Rightarrow> string \<Rightarrow> unit io" where
  "reload_process loads env proc_id_or_name =
     bind_io (run_command env (''pm2 reload '' @ proc_id_or_name) False) (\<lambda>output.
       bind_io (if_output output (\<lambda>obj.
                  emit (ActionFinished ''Process Reloaded''
                           [Lit (''Reloaded '' @ apostrophe @ proc_id_or_name @ apostrophe
                                 @ ''.'' @ newline @ py_str obj)]))) (\<lambda>_.
         get_process_list loads env))"

definition stop_all :: "(string \<Rightarrow> json option) \<Rightarrow> env \<Rightarrow> unit io" where
  "stop_all loads env =
     bind_io (run_command env ''pm2 stop all'' False) (\<lambda>output.
       bind_io (if_output output (\<lambda>obj.
                  emit (ActionFinished ''All Processes Stopped'' [Lit (signal_str obj)]))) (\<lambda>_.
         get_process_list loads env))"

definition restart_all :: "(string \<Rightarrow> json option) \<Rightarrow> env \<Rightarrow> unit io" where
  "restart_all loads env =
     bind_io (run_command env ''pm2 restart all'' False) (\<lambda>output.
       bind_io (if_output output (\<lambda>obj.
                  emit (ActionFinished ''All Processes Restarted'' [Lit (signal_str obj)]))) (\<lambda>_.
         get_process_list loads env))"

section \<open>The main window (view/main.py)\<close>

subsection \<open>Merging the declared projects with the live list\<close>

text \<open>
  Iterating a parsed value: a list gives its elements, a dictionary its keys, a string
  its characters; anything else is not iterable.
\<close>

definition py_iter :: "json \<Rightarrow> exc + json list" where
  "py_iter v =
     (case v of
        JArr xs \<Rightarrow> Inr xs
      | JObj kvs \<Rightarrow> Inr (map (\<lambda>kv. JStr (fst kv)) kvs)
      | JStr s \<Rightarrow> Inr (map (\<lambda>c. JStr [c]) s)
      | _ \<Rightarrow> Inl TypeError)"

text \<open>
  \<^verbatim>\<open>next((p for p in pm2_processes if p.get('name') == proj_config['name']), None)\<close>:
  the first live record with the name of the project. An element that is not a
  dictionary has no \<^verbatim>\<open>get\<close>.
\<close>

fun find_live :: "dict \<Rightarrow> json list \<Rightarrow> exc + dict option" where
  "find_live proj_config [] = Inr None"
| "find_live proj_config (p # ps) =
     (case p of
        JObj d \<Rightarrow>
          (case py_getitem proj_config ''name'' of
             Inl e \<Rightarrow> Inl e
           | Inr n \<Rightarrow> if py_get d ''name'' = n then Inr (Some d) else find_live proj_config ps)
      | _ \<Rightarrow> Inl AttributeError)"

text \<open>\<^verbatim>\<open>{**proj_config, **(live_data or {})}\<close>.\<close>

definition merge_one :: "dict \<Rightarrow> json list \<Rightarrow> exc + dict" where
  "merge_one proj_config ps =
     (case find_live proj_config ps of
        Inl e \<Rightarrow> Inl e
      | Inr live_data \<Rightarrow>
          Inr (dict_merge proj_config
                 (case live_data of None \<Rightarrow> [] | Some d \<Rightarrow> if d \<noteq> [] then d else [])))"

fun merge_known :: "dict list \<Rightarrow> json \<Rightarrow> exc + dict list" where
  "merge_known [] pm2_processes = Inr []"
| "merge_known (proj_config # rest) pm2_processes =
     (case py_iter pm2_processes of
        Inl e \<Rightarrow> Inl e
      | Inr ps \<Rightarrow>
          (case merge_one proj_config ps of
             Inl e \<Rightarrow> Inl e
           | Inr merged_data \<Rightarrow>
               (case merge_known rest pm2_processes of
                  Inl e \<Rightarrow> Inl e
                | Inr ms \<Rightarrow> Inr (merged_data # ms))))"

text \<open>
  The sort keys \<^verbatim>\<open>p['name']\<close> are computed for every element before any comparison.
\<close>

fun sort_keys :: "dict list \<Rightarrow> exc + json list" where
  "sort_keys [] = Inr []"
| "sort_keys (p # ps) =
     (case py_getitem p ''name'' of
        Inl e \<Rightarrow> Inl e
      | Inr k \<Rightarrow> (case sort_keys ps of Inl e \<Rightarrow> Inl e | Inr ks \<Rightarrow> Inr (k # ks)))"

definition is_str :: "json \<Rightarrow> bool" where
  "is_str v = (case v of JStr _ \<Rightarrow> True | _ \<Rightarrow> False)"

definition name_str :: "dict \<Rightarrow> string" where
  "name_str p = (case py_get p ''name'' of JStr s \<Rightarrow> s | _ \<Rightarrow> [])"

text \<open>
  \<^verbatim>\<open>list.sort(key=lambda p: p['name'])\<close> is stable and compares strings by code
  point, which is the order of their bytes. A list of at most one element is not
  compared at all. The project store only holds names that are strings; with two or
  more elements, names that are not all strings are reported as \<^verbatim>\<open>TypeError\<close>, which
  is what the comparison of unordered values raises.
\<close>

definition sort_by_name :: "dict list \<Rightarrow> exc + dict list" where
  "sort_by_name ps =
     (case sort_keys ps of
        Inl e \<Rightarrow> Inl e
      | Inr ks \<Rightarrow>
          if length ps \<le> 1 then Inr ps
          else if list_all is_str ks then Inr (sort_key name_str ps)
          else Inl TypeError)"

text \<open>Step 1 of \<^verbatim>\<open>update_ui\<close>: the new value of \<^verbatim>\<open>all_projects_data\<close>.\<close>

definition reconcile :: "dict list \<Rightarrow> json \<Rightarrow> exc + dict list" where
  "reconcile known_projects pm2_processes =
     (case merge_known known_projects pm2_processes of
        Inl e \<Rightarrow> Inl e
      | Inr new_project_data_list \<Rightarrow> sort_by_name new_project_data_list)"

subsection \<open>The entries of the sidebar (view/sidebar.py)\<close>

datatype icon = PresenceOnline | PresenceOffline | PresenceBusy | PresenceUnknown

text \<open>\<^verbatim>\<open>project_data.get('pm2_env', {}).get('status', 'undeployed')\<close>.\<close>

definition status_of :: "dict \<Rightarrow> exc + json" where
  "status_of project_data =
     (case map_of project_data ''pm2_env'' of
        None \<Rightarrow> Inr (JStr ''undeployed'')
      | Some (JObj pm2_env) \<Rightarrow>
          (case map_of pm2_env ''status'' of
             None \<Rightarrow> Inr (JStr ''undeployed'')
           | Some status \<Rightarrow> Inr status)
      | Some _ \<Rightarrow> Inl AttributeError)"

definition status_icon :: "json \<Rightarrow> icon" where
  "status_icon status =
     (if status = JStr ''online'' then PresenceOnline
      else if status \<in> set [JStr ''stopped'', JStr ''stopping''] then PresenceOffline
      else if status = JStr ''errored'' then PresenceBusy
      else PresenceUnknown)"

definition update_status :: "dict \<Rightarrow> exc + icon" where
  "update_status project_data =
     (case status_of project_data of Inl e \<Rightarrow> Inl e | Inr status \<Rightarrow> Inr (status_icon status))"

text \<open>
  An item of the list widget: the dashboard entry, or a project entry with the name
  stored in it and the icon its widget shows.
\<close>

datatype list_item = DashboardItem | ProjectItem json icon

datatype list_op =
    Clear
  | AddItem list_item
  | TakeItem nat
  | InsertItem nat list_item
  | UpdateWidget json icon

text \<open>
  \<^verbatim>\<open>_add_project_list_item\<close> up to the insertion: the item with its name and the
  widget built from the project data.
\<close>

definition make_item :: "dict \<Rightarrow> exc + list_item" where
  "make_item proj_data =
     (case py_getitem proj_data ''name'' of
        Inl e \<Rightarrow> Inl e
      | Inr n \<Rightarrow> (case update_status proj_data of Inl e \<Rightarrow> Inl e | Inr i \<Rightarrow> Inr (ProjectItem n i)))"

subsection \<open>The list widget\<close>

fun item_names :: "list_item list \<Rightarrow> json list" where
  "item_names [] = []"
| "item_names (DashboardItem # items) = item_names items"
| "item_names (ProjectItem n i # items) = n # item_names items"

text \<open>First population: the list is cleared and built again, the dashboard first.\<close>

fun add_items :: "dict list \<Rightarrow> list_item list \<Rightarrow> exc option \<times> list_item list \<times> list_op list" where
  "add_items [] items = (None, items, [])"
| "add_items (proj # rest) items =
     (case make_item proj of
        Inl e \<Rightarrow> (Some e, items, [])
      | Inr it \<Rightarrow>
          (case add_items rest (items @ [it]) of
             (r, items', ops) \<Rightarrow> (r, items', AddItem it # ops)))"

definition first_load :: "dict list \<Rightarrow> exc option \<times> list_item list \<times> list_op list" where
  "first_load merged =
     (case add_items merged [DashboardItem] of
        (r, items, ops) \<Rightarrow> (r, items, Clear # AddItem DashboardItem # ops))"

text \<open>A list or a dictionary cannot be the key of a dictionary.\<close>

definition hashable :: "json \<Rightarrow> bool" where
  "hashable v = (case v of JArr _ \<Rightarrow> False | JObj _ \<Rightarrow> False | _ \<Rightarrow> True)"

text \<open>
  The keys of \<^verbatim>\<open>existing_items_map\<close>, in the order of their first insertion. The value
  stored under a name is the last item of the list with that name, so the item object
  is addressed as the last row with the name.
\<close>

definition existing_keys :: "list_item list \<Rightarrow> json list" where
  "existing_keys items = rev (remdups (rev (item_names items)))"

fun last_row :: "json \<Rightarrow> list_item list \<Rightarrow> nat option" where
  "last_row n [] = None"
| "last_row n (it # items) =
     (case last_row n items of
        Some r \<Rightarrow> Some (Suc r)
      | None \<Rightarrow> (case it of ProjectItem m i \<Rightarrow> if m = n then Some 0 else None
                          | DashboardItem \<Rightarrow> None))"

definition take_item :: "nat \<Rightarrow> list_item list \<Rightarrow> list_item list" where
  "take_item row items = take row items @ drop (Suc row) items"

text \<open>\<^verbatim>\<open>insertItem\<close> appends when the row is beyond the end.\<close>

definition insert_item :: "nat \<Rightarrow> list_item \<Rightarrow> list_item list \<Rightarrow> list_item list" where
  "insert_item row it items = take row items @ it # drop row items"

text \<open>The keys of \<^verbatim>\<open>new_data_map\<close>.\<close>

fun new_data_keys :: "dict list \<Rightarrow> exc + json list" where
  "new_data_keys [] = Inr []"
| "new_data_keys (p # ps) =
     (case py_getitem p ''name'' of
        Inl e \<Rightarrow> Inl e
      | Inr n \<Rightarrow>
          if \<not> hashable n then Inl TypeError
          else (case new_data_keys ps of Inl e \<Rightarrow> Inl e | Inr ns \<Rightarrow> Inr (n # ns)))"

text \<open>The loop that removes the items whose name is no longer in the data.\<close>

fun remove_missing :: "json list \<Rightarrow> json list \<Rightarrow> list_item list \<Rightarrow> list_item list \<times> list_op list" where
  "remove_missing [] new_names items = (items, [])"
| "remove_missing (n # ns) new_names items =
     (if n \<in> set new_names then remove_missing ns new_names items
      else
        (case last_row n items of
           None \<Rightarrow> remove_missing ns new_names items
         | Some row \<Rightarrow>
             (case remove_missing ns new_names (take_item row items) of
                (items', ops) \<Rightarrow> (items', TakeItem row # ops))))"

text \<open>
  The loop over \<^verbatim>\<open>enumerate(self.all_projects_data)\<close>: an existing item has its widget
  updated, a new one is inserted at row \<open>i + 1\<close>.
\<close>

fun update_and_add ::
  "json list \<Rightarrow> nat \<Rightarrow> dict list \<Rightarrow> list_item list \<Rightarrow> exc option \<times> list_item list \<times> list_op list" where
  "update_and_add existing i [] items = (None, items, [])"
| "update_and_add existing i (proj # rest) items =
     (case py_getitem proj ''name'' of
        Inl e \<Rightarrow> (Some e, items, [])
      | Inr n \<Rightarrow>
          if n \<in> set existing then
            (case update_status proj of
               Inl e \<Rightarrow> (Some e, items, [])
             | Inr ic \<Rightarrow>
                 (case update_and_add existing (Suc i) rest
                         (case last_row n items of
                            None \<Rightarrow> items
                          | Some row \<Rightarrow> items[row := ProjectItem n ic]) of
                    (r, items', ops) \<Rightarrow> (r, items', UpdateWidget n ic # ops)))
          else
            (case make_item proj of
               Inl e \<Rightarrow> (Some e, items, [])
             | Inr it \<Rightarrow>
                 (case update_and_add existing (Suc i) rest (insert_item (Suc i) it items) of
                    (r, items', ops) \<Rightarrow> (r, items', InsertItem (Suc i) it # ops))))"

text \<open>The diff of the rendered list against the new merged list.\<close>

definition apply_diff :: "list_item list \<Rightarrow> dict list \<Rightarrow> exc option \<times> list_item list \<times> list_op list" where
  "apply_diff items merged =
     (if \<not> list_all hashable (item_names items) then (Some TypeError, items, [])
      else
        (case new_data_keys merged of
           Inl e \<Rightarrow> (Some e, items, [])
         | Inr new_names \<Rightarrow>
             (case remove_missing (existing_keys items) new_names items of
                (items1, ops1) \<Rightarrow>
                  (case update_and_add (existing_keys items) 0 merged items1 of
                     (r, items2, ops2) \<Rightarrow> (r, items2, ops1 @ ops2)))))"

text \<open>The operations that leave the rows of the list as they are.\<close>

definition is_update :: "list_op \<Rightarrow> bool" where
  "is_update op = (case op of UpdateWidget n ic \<Rightarrow> True | _ \<Rightarrow> False)"

subsection \<open>The window state and the daemon state machine\<close>

datatype DaemonState = STOPPED | RUNNING | PENDING

text \<open>
  The argument of \<^verbatim>\<open>update_daemon_status\<close>: a boolean from the worker or the
  preloader, or a state.
\<close>

datatype status_input = Liveness bool | Request DaemonState

text \<open>
  The fields of the window that the slots read and write. \<open>state_changes\<close> is the
  line printed at each change of state; \<open>widget_ops\<close> lists the operations on the list
  widget. The five project actions are enabled and disabled together.
\<close>

record gui =
  daemon_state :: "DaemonState option"
  all_projects_data :: "dict list"
  known_projects :: "dict list"
  project_list_widget :: "list_item list"
  widget_ops :: "list_op list"
  start_daemon_enabled :: bool
  kill_daemon_enabled :: bool
  project_actions_enabled :: bool
  dashboard_daemon_status :: bool
  overlay_visible :: bool
  overlay_text :: string
  refresh_timer_active :: bool
  status_bar :: "fpart list"
  error_dialogs :: "string list"
  state_changes :: "(DaemonState option \<times> DaemonState) list"

definition show_error_message :: "string \<Rightarrow> gui \<Rightarrow> gui" where
  "show_error_message message g =
     g\<lparr>status_bar := [Lit ''An error occurred.''], error_dialogs := error_dialogs g @ [message]\<rparr>"

definition show_action_result :: "string \<Rightarrow> fpart list \<Rightarrow> gui \<Rightarrow> gui" where
  "show_action_result title message g = g\<lparr>status_bar := [Lit title]\<rparr>"

text \<open>
  \<^verbatim>\<open>update_ui\<close>. The refresh of the dashboard counters and of the detail view between
  the merge and the list update is presentation and is left out.
\<close>

definition update_ui :: "(string \<Rightarrow> json option) \<Rightarrow> string \<Rightarrow> gui \<Rightarrow> exc option \<times> gui" where
  "update_ui loads pm2_json_data g =
     (let is_first_load = (all_projects_data g = []);
          parsed = loads pm2_json_data;
          g1 = (case parsed of None \<Rightarrow> show_error_message ''Failed to parse PM2 data.'' g
                              | Some _ \<Rightarrow> g);
          pm2_processes = (case parsed of None \<Rightarrow> JArr [] | Some v \<Rightarrow> v)
      in case reconcile (known_projects g1) pm2_processes of
           Inl e \<Rightarrow> (Some e, g1)
         | Inr new_project_data_list \<Rightarrow>
             (let g2 = g1\<lparr>all_projects_data := new_project_data_list\<rparr>
              in case (if is_first_load then first_load new_project_data_list
                       else apply_diff (project_list_widget g2) new_project_data_list) of
                   (r, items, ops) \<Rightarrow>
                     (let g3 = g2\<lparr>project_list_widget := items, widget_ops := widget_ops g2 @ ops\<rparr>
                      in case r of
                           Some e \<Rightarrow> (Some e, g3)
                         | None \<Rightarrow>
                             (None,
                              g3\<lparr>status_bar :=
                                    (if daemon_state g3 = Some STOPPED
                                     then [Lit ''PM2 Daemon is not running.'']
                                     else [Lit ''Updated. Managing '',
                                           Val (JNum (int (length new_project_data_list))),
                                           Lit '' projects.''])\<rparr>))))"

definition requested_state :: "status_input \<Rightarrow> DaemonState" where
  "requested_state new_state_or_bool =
     (case new_state_or_bool of
        Liveness b \<Rightarrow> if b then RUNNING else STOPPED
      | Request s \<Rightarrow> s)"

definition update_daemon_status ::
  "(string \<Rightarrow> json option) \<Rightarrow> status_input \<Rightarrow> gui \<Rightarrow> exc option \<times> gui" where
  "update_daemon_status loads new_state_or_bool g =
     (let new_state = requested_state new_state_or_bool
      in if Some new_state = daemon_state g then (None, g)
         else
           (let g1 = g\<lparr>state_changes := state_changes g @ [(daemon_state g, new_state)],
                       daemon_state := Some new_state\<rparr>
            in case new_state of
                 PENDING \<Rightarrow>
                   (None,
                    g1\<lparr>status_bar := [Lit ''Checking PM2 daemon status...''],
                       start_daemon_enabled := False,
                       kill_daemon_enabled := False,
                       project_actions_enabled := False,
                       dashboard_daemon_status := False,
                       overlay_visible := True\<rparr>)
               | RUNNING \<Rightarrow>
                   (None,
                    g1\<lparr>status_bar := [Lit ''PM2 Daemon is running. Fetching process list...''],
                       start_daemon_enabled := False,
                       kill_daemon_enabled := True,
                       project_actions_enabled := True,
                       dashboard_daemon_status := True,
                       overlay_visible := False,
                       refresh_timer_active := True\<rparr>)
               | STOPPED \<Rightarrow>
                   update_ui loads ''[]''
                     (g1\<lparr>status_bar :=
                           [Lit (''PM2 Daemon is not running. Please use the '' @ apostrophe
                                 @ ''Start Daemon'' @ apostrophe @ '' button.'')],
                         start_daemon_enabled := True,
                         kill_daemon_enabled := False,
                         project_actions_enabled := False,
                         dashboard_daemon_status := False,
                         overlay_visible := False,
                         refresh_timer_active := False\<rparr>)))"

text \<open>The window before \<^verbatim>\<open>init_ui\<close>, over a given project store.\<close>

definition new_gui :: "dict list \<Rightarrow> gui" where
  "new_gui store =
     \<lparr>daemon_state = None, all_projects_data = [], known_projects = store,
      project_list_widget = [], widget_ops = [],
      start_daemon_enabled = True, kill_daemon_enabled = True,
      project_actions_enabled = True, dashboard_daemon_status = False,
      overlay_visible = False, overlay_text = ''Loading state...'',
      refresh_timer_active = False, status_bar = [], error_dialogs = [],
      state_changes = []\<rparr>"

definition init_ui :: "(string \<Rightarrow> json option) \<Rightarrow> gui \<Rightarrow> exc option \<times> gui" where
  "init_ui loads g =
     update_daemon_status loads (Request PENDING) (g\<lparr>overlay_text := ''loading state,,,''\<rparr>)"

definition post_init_setup ::
  "(string \<Rightarrow> json option) \<Rightarrow> string \<Rightarrow> bool \<Rightarrow> gui \<Rightarrow> exc option \<times> gui" where
  "post_init_setup loads initial_json_data initial_daemon_status g =
     (case update_daemon_status loads (Liveness initial_daemon_status) g of
        (Some e, g') \<Rightarrow> (Some e, g')
      | (None, g') \<Rightarrow> update_ui loads initial_json_data g')"

text \<open>
  The slot connected to each signal of the worker. An exception raised in a slot is
  reported and the event loop goes on with the state as the slot left it. The slot of
  \<^verbatim>\<open>logs_ready\<close> only writes to the detail view.
\<close>

definition deliver :: "(string \<Rightarrow> json option) \<Rightarrow> signal \<Rightarrow> gui \<Rightarrow> gui" where
  "deliver loads sig g =
     (case sig of
        ListReady pm2_json_data \<Rightarrow> snd (update_ui loads pm2_json_data g)
      | LogsReady proc_name logs \<Rightarrow> g
      | ActionFinished title message \<Rightarrow> show_action_result title message g
      | Error message \<Rightarrow> show_error_message message g
      | DaemonStatusReady b \<Rightarrow> snd (update_daemon_status loads (Liveness b) g))"

fun signals_of :: "event list \<Rightarrow> signal list" where
  "signals_of [] = []"
| "signals_of (Emit s # es) = s # signals_of es"
| "signals_of (e # es) = signals_of es"

text \<open>One slot of the worker runs, then the window handles what it emitted.\<close>

definition run_worker :: "(string \<Rightarrow> json option) \<Rightarrow> unit io \<Rightarrow> gui \<times> wstate \<Rightarrow> gui \<times> wstate" where
  "run_worker loads slot gw =
     (case gw of (g, w) \<Rightarrow>
        (case slot w of (r, w') \<Rightarrow>
           (fold (deliver loads) (signals_of (drop (length (trace w)) (trace w'))) g, w')))"

text \<open>The periodic refresh and the two daemon requests of the user.\<close>

definition on_refresh_timer :: "(string \<Rightarrow> json option) \<Rightarrow> env \<Rightarrow> gui \<times> wstate \<Rightarrow> gui \<times> wstate" where
  "on_refresh_timer loads env gw = run_worker loads (get_process_list loads env) gw"

definition handle_start_daemon_request ::
  "(string \<Rightarrow> json option) \<Rightarrow> env \<Rightarrow> gui \<times> wstate \<Rightarrow> gui \<times> wstate" where
  "handle_start_daemon_request loads env gw =
     (case gw of (g, w) \<Rightarrow>
        run_worker loads (start_daemon loads env)
          (snd (update_daemon_status loads (Request PENDING)
                  (g\<lparr>overlay_text := ''Starting PM2 Daemon...''\<rparr>)), w))"

definition gui_kill_daemon ::
  "(string \<Rightarrow> json option) \<Rightarrow> env \<Rightarrow> bool \<Rightarrow> gui \<times> wstate \<Rightarrow> gui \<times> wstate" where
  "gui_kill_daemon loads env reply_yes gw =
     (case gw of (g, w) \<Rightarrow>
        if reply_yes then
          run_worker loads (kill_daemon loads env)
            (snd (update_daemon_status loads (Request PENDING)
                    (g\<lparr>overlay_text := ''Killing PM2 Daemon...''\<rparr>)), w)
        else (g, w))"

subsection \<open>Well-formed inputs\<close>

text \<open>
  A declared project has a name that is a string (the store is only written through
  \<^verbatim>\<open>add_project\<close> and \<^verbatim>\<open>update_project\<close>, with the text the user typed), and the live
  list of \<^verbatim>\<open>pm2 jlist\<close> is a list of records.
\<close>

definition has_string_name :: "dict \<Rightarrow> bool" where
  "has_string_name d = (case map_of d ''name'' of Some (JStr s) \<Rightarrow> True | _ \<Rightarrow> False)"

definition is_record :: "json \<Rightarrow> bool" where
  "is_record v = (case v of JObj d \<Rightarrow> True | _ \<Rightarrow> False)"

definition is_record_list :: "json \<Rightarrow> bool" where
  "is_record_list v = (case v of JArr ps \<Rightarrow> list_all is_record ps | _ \<Rightarrow> False)"

text \<open>
  Whatever the parsed value is, the dictionaries among its elements are dictionaries.
\<close>

definition proper_records :: "json \<Rightarrow> bool" where
  "proper_records v =
     (case v of
        JArr ps \<Rightarrow> list_all (\<lambda>p. case p of JObj d \<Rightarrow> is_dict d | _ \<Rightarrow> True) ps
      | _ \<Rightarrow> True)"

section \<open>Example inputs\<close>

text \<open>
  The bytes of the examples are ASCII and none of them is zero: \<^verbatim>\<open>json.loads\<close> reads
  such bytes as UTF-8, and they decode to the same characters. The decoder of the
  examples is only meant for them and gives up on every other byte.
\<close>

definition ascii_decode :: "string \<Rightarrow> string option" where
  "ascii_decode b = (if list_all (\<lambda>c. CHR 0x00 < c \<and> c < CHR 0x80) b then Some b else None)"

text \<open>
  An environment is given by the outcome of the process-table query, of the control
  command and of \<^verbatim>\<open>pm2 jlist\<close>. The examples run on a POSIX system with a shell.
\<close>

definition example_env :: "exec_outcome \<Rightarrow> exec_outcome \<Rightarrow> exec_outcome \<Rightarrow> env" where
  "example_env probe action listing =
     \<lparr>os_name = Posix, shell_found = True, os_query = probe,
      exec = (\<lambda>command. if command = ''pm2 jlist'' then listing else action),
      bytes_decode = ascii_decode,
      tmp_prefix = Some ''/tmp/tmpk3v9x0qa'', dump_ok = True\<rparr>"

definition fresh_worker :: wstate where
  "fresh_worker = \<lparr>trace = [], files = {}\<rparr>"

definition daemon_line :: string where
  "daemon_line = ''root 812 1 0 09:00 ? 00:00:01 PM2 v5.3.0: God Daemon (/root/.pm2)''"




definition timeout_env :: env where
  "timeout_env = example_env (Completed daemon_line) (TimeoutExpired None) (Completed ''[]'')"

definition svc_project :: dict where
  "svc_project = [(''name'', JStr ''svc''), (''path'', JStr ''/app''), (''script'', JStr ''main'')]"

text \<open>
  Two declared projects, stored in the order \<open>b\<close>, \<open>a\<close>, and a live list in which \<open>a\<close>
  is online and a process \<open>z\<close> runs that no project declares.
\<close>

definition project_a :: dict where
  "project_a = [(''name'', JStr ''a''), (''path'', JStr ''/srv/a''), (''script'', JStr ''app.js''),
                (''autorestart'', JBool True), (''watch'', JBool False)]"

definition project_b :: dict where
  "project_b = [(''name'', JStr ''b''), (''path'', JStr ''/srv/b''), (''script'', JStr ''main.py''),
                (''autorestart'', JBool True), (''watch'', JBool False)]"

definition live_a :: dict where
  "live_a = [(''name'', JStr ''a''), (''pm_id'', JNum 0),
             (''pm2_env'', JObj [(''status'', JStr ''online''), (''restart_time'', JNum 2)]),
             (''watch'', JBool True)]"

definition live_z :: dict where
  "live_z = [(''name'', JStr ''z''), (''pm_id'', JNum 1),
             (''pm2_env'', JObj [(''status'', JStr ''stopped'')])]"

definition declared_ba :: "dict list" where
  "declared_ba = [project_b, project_a]"

definition live_za :: json where
  "live_za = JArr [JObj live_z, JObj live_a]"

text \<open>The merged view of \<open>a\<close>: the live record overrides \<open>watch\<close> and adds its own fields.\<close>

definition merged_a :: dict where
  "merged_a = [(''name'', JStr ''a''), (''path'', JStr ''/srv/a''), (''script'', JStr ''app.js''),
               (''autorestart'', JBool True), (''watch'', JBool True), (''pm_id'', JNum 0),
               (''pm2_env'', JObj [(''status'', JStr ''online''), (''restart_time'', JNum 2)])]"

text \<open>
  A list rendered when the store held \<open>b\<close> and \<open>c\<close>, and the list with the entries of
  \<open>a\<close> and \<open>b\<close>.
\<close>

definition rendered_bc :: "list_item list" where
  "rendered_bc = [DashboardItem, ProjectItem (JStr ''b'') PresenceUnknown,
                  ProjectItem (JStr ''c'') PresenceOffline]"

definition rendered_ab :: "list_item list" where
  "rendered_ab = [DashboardItem, ProjectItem (JStr ''a'') PresenceOnline,
                  ProjectItem (JStr ''b'') PresenceUnknown]"


section \<open>Properties of the worker\<close>

lemmas io_defs = bind_io_def return_io_def raise_io_def log_def emit_def when_io_def
  if_output_def finally_io_def create_file_def remove_file_def path_exists_def

lemma is_daemon_running_state:
  "snd (is_daemon_running env st) = st\<lparr>trace := trace st @ [Probe]\<rparr>"
  by (simp add: is_daemon_running_def io_defs split: exec_outcome.splits)

lemma is_daemon_running_eq:
  "fst (is_daemon_running env st) = r \<Longrightarrow>
   is_daemon_running env st = (r, st\<lparr>trace := trace st @ [Probe]\<rparr>)"
  using is_daemon_running_state [of env st] by (cases "is_daemon_running env st") simp

text \<open>Without a shell the prober reports not-running.\<close>

lemma missing_shell_not_running:
  "\<not> shell_found env \<Longrightarrow> fst (is_daemon_running env st) = Inr False"
  by (simp add: is_daemon_running_def io_defs)

lemma running_shell_found:
  "fst (is_daemon_running env st) = Inr True \<Longrightarrow> shell_found env"
  using missing_shell_not_running [of env st] by auto

text \<open>The executor, outcome by outcome: what it returns and what it adds to the trace.\<close>

lemma run_command_eq:
  "run_command env command can_fail st =
     (if \<not> shell_found env
      then (Inr None, st\<lparr>trace := trace st @ [Run command, Emit (Error not_found_message)]\<rparr>)
      else
        case exec env command of
          OtherException e \<Rightarrow> (Inl e, st\<lparr>trace := trace st @ [Run command]\<rparr>)
        | r \<Rightarrow> (Inr (returned_output r),
                st\<lparr>trace := trace st @ Run command #
                  (case r of
                     CalledProcessError output \<Rightarrow>
                       if can_fail then []
                       else [Emit (Error (failed_message command (Some (Text output))))]
                   | TimeoutExpired output \<Rightarrow>
                       if can_fail then [] else [Emit (Error (failed_message command output))]
                   | _ \<Rightarrow> [])\<rparr>))"
  by (simp add: run_command_def command_failed_def returned_output_def io_defs
           split: exec_outcome.splits)


lemma example_probe_stopped:
  "is_daemon_running (example_env (CalledProcessError []) a l) st
     = (Inr False, st\<lparr>trace := trace st @ [Probe]\<rparr>)"
  by (simp add: is_daemon_running_def example_env_def io_defs)




subsection \<open>Fetching logs\<close>





subsection \<open>The initial state\<close>










subsection \<open>Refreshing the list\<close>

text \<open>The refresh, outcome by outcome.\<close>

lemma get_process_list_stopped:
  assumes "fst (is_daemon_running env st) = Inr False"
  shows "get_process_list loads env st =
           (Inr (), st\<lparr>trace := trace st @
              [Probe, Emit (DaemonStatusReady False), Emit (ListReady ''[]'')]\<rparr>)"
  using is_daemon_running_eq [OF assms]
  by (simp add: get_process_list_def io_defs)

lemma get_process_list_running:
  assumes "fst (is_daemon_running env st) = Inr True"
    and "handled (exec env ''pm2 jlist'')"
  shows "get_process_list loads env st =
           (case returned_output (exec env ''pm2 jlist'') of
              None \<Rightarrow>
                (Inr (), st\<lparr>trace := trace st @
                   [Probe, Emit (DaemonStatusReady True), Run ''pm2 jlist'',
                    Emit (ListReady ''[]'')]\<rparr>)
            | Some (Text s) \<Rightarrow>
                (Inr (), st\<lparr>trace := trace st @
                   [Probe, Emit (DaemonStatusReady True), Run ''pm2 jlist'',
                    Emit (ListReady (if loads s = None then ''[]'' else s))]\<rparr>)
            | Some (Bytes b) \<Rightarrow>
                (case bytes_decode env b of
                   None \<Rightarrow>
                     (Inl UnicodeDecodeError, st\<lparr>trace := trace st @
                        [Probe, Emit (DaemonStatusReady True), Run ''pm2 jlist'']\<rparr>)
                 | Some s \<Rightarrow>
                     (Inr (), st\<lparr>trace := trace st @
                        [Probe, Emit (DaemonStatusReady True), Run ''pm2 jlist'',
                         Emit (ListReady (if loads s = None then ''[]'' else []))]\<rparr>)))"
  using is_daemon_running_eq [OF assms(1)] running_shell_found [OF assms(1)] assms(2)
  by (auto simp add: get_process_list_def run_command_eq returned_output_def handled_def
        py_json_loads_def signal_str_def io_defs
      split: option.splits exec_outcome.splits captured.splits)




subsection \<open>Control operations\<close>

lemma run_command_returns:
  assumes "handled (exec env command) \<or> \<not> shell_found env"
  shows "\<exists>out evs. list_all is_report evs
           \<and> run_command env command can_fail st
               = (Inr out, st\<lparr>trace := trace st @ Run command # evs\<rparr>)"
proof (cases "shell_found env")
  case False
  then have "run_command env command can_fail st
               = (Inr None, st\<lparr>trace := trace st @ Run command # [Emit (Error not_found_message)]\<rparr>)"
    by (simp add: run_command_eq)
  moreover have "list_all is_report [Emit (Error not_found_message)]"
    by (simp add: is_report_def)
  ultimately show ?thesis
    by blast
next
  case True
  with assms have h: "handled (exec env command)"
    by simp
  define evs where
    "evs = (case exec env command of
              CalledProcessError out \<Rightarrow>
                if can_fail then [] else [Emit (Error (failed_message command (Some (Text out))))]
            | TimeoutExpired out \<Rightarrow>
                if can_fail then [] else [Emit (Error (failed_message command out))]
            | _ \<Rightarrow> [])"
  have "run_command env command can_fail st
          = (Inr (returned_output (exec env command)),
             st\<lparr>trace := trace st @ Run command # evs\<rparr>)"
    using h True
    by (cases "exec env command") (simp_all add: run_command_eq handled_def evs_def)
  moreover have "list_all is_report evs"
    by (cases "exec env command") (simp_all add: evs_def is_report_def)
  ultimately show ?thesis
    by blast
qed

lemma run_command_handled:
  assumes "handled (exec env command)"
  shows "\<exists>out evs. list_all is_report evs
           \<and> run_command env command can_fail st
               = (Inr out, st\<lparr>trace := trace st @ Run command # evs\<rparr>)"
  using assms by (intro run_command_returns) simp

lemma run_command_raises:
  assumes "\<not> handled (exec env command)" and "shell_found env"
  shows "\<exists>e. run_command env command can_fail st
               = (Inl e, st\<lparr>trace := trace st @ [Run command]\<rparr>)"
  using assms
  by (cases "exec env command") (simp_all add: run_command_eq handled_def)

lemma if_output_report:
  "\<exists>evs. list_all is_report evs
     \<and> if_output out (\<lambda>obj. emit (ActionFinished title (message obj))) st
         = (Inr (), st\<lparr>trace := trace st @ evs\<rparr>)"
proof -
  define evs where
    "evs = (case out of
              None \<Rightarrow> []
            | Some obj \<Rightarrow>
                if truthy obj then [Emit (ActionFinished title (message obj))] else [])"
  have "if_output out (\<lambda>obj. emit (ActionFinished title (message obj))) st
          = (Inr (), st\<lparr>trace := trace st @ evs\<rparr>)"
    by (cases out) (simp_all add: evs_def io_defs)
  moreover have "list_all is_report evs"
    by (cases out) (simp_all add: evs_def is_report_def)
  ultimately show ?thesis
    by blast
qed

text \<open>
  The pattern of the control operations: the command, a report that only emits, the
  refresh.
\<close>

lemma report_then_refresh_returns:
  assumes "handled (exec env command) \<or> \<not> shell_found env"
    and k: "\<And>out st. \<exists>evs. list_all is_report evs
              \<and> k out st = (Inr (), st\<lparr>trace := trace st @ evs\<rparr>)"
  shows "\<exists>evs. list_all is_report evs
           \<and> bind_io (run_command env command can_fail)
                (\<lambda>out. bind_io (k out) (\<lambda>_. refresh)) st
               = refresh (st\<lparr>trace := trace st @ Run command # evs\<rparr>)"
proof -
  from run_command_returns [OF assms(1)]
  obtain out evs1 where r1: "list_all is_report evs1"
    and r2: "run_command env command can_fail st
               = (Inr out, st\<lparr>trace := trace st @ Run command # evs1\<rparr>)"
    by blast
  from k [of out "st\<lparr>trace := trace st @ Run command # evs1\<rparr>"]
  obtain evs2 where k1: "list_all is_report evs2"
    and k2: "k out (st\<lparr>trace := trace st @ Run command # evs1\<rparr>)
               = (Inr (), st\<lparr>trace := trace st @ Run command # evs1 @ evs2\<rparr>)"
    by auto
  have "bind_io (run_command env command can_fail)
          (\<lambda>out. bind_io (k out) (\<lambda>_. refresh)) st
        = refresh (st\<lparr>trace := trace st @ Run command # evs1 @ evs2\<rparr>)"
    by (simp add: bind_io_def r2 k2)
  moreover from r1 k1 have "list_all is_report (evs1 @ evs2)"
    by simp
  ultimately show ?thesis
    by blast
qed

lemma report_then_refresh:
  assumes "handled (exec env command)"
    and k: "\<And>out st. \<exists>evs. list_all is_report evs
              \<and> k out st = (Inr (), st\<lparr>trace := trace st @ evs\<rparr>)"
  shows "\<exists>evs. list_all is_report evs
           \<and> bind_io (run_command env command can_fail)
                (\<lambda>out. bind_io (k out) (\<lambda>_. refresh)) st
               = refresh (st\<lparr>trace := trace st @ Run command # evs\<rparr>)"
  using assms(1) by (intro report_then_refresh_returns k) simp

lemma get_process_list_shape:
  "\<exists>r evs. get_process_list loads env st = (r, st\<lparr>trace := trace st @ evs\<rparr>)
           \<and> (\<forall>e \<in> set evs. e = Probe \<or> e = Run ''pm2 jlist'' \<or> (\<exists>s. e = Emit s))"
proof (cases "is_daemon_running env st")
  case (Pair r st1)
  then have st1: "st1 = st\<lparr>trace := trace st @ [Probe]\<rparr>"
    using is_daemon_running_state [of env st] by simp
  show ?thesis
  proof (cases r)
    case (Inl e)
    with Pair st1 have "get_process_list loads env st = (Inl e, st\<lparr>trace := trace st @ [Probe]\<rparr>)"
      by (simp add: get_process_list_def bind_io_def)
    then show ?thesis by auto
  next
    case (Inr b)
    show ?thesis
    proof (cases b)
      case False
      with Inr Pair have "fst (is_daemon_running env st) = Inr False" by simp
      from get_process_list_stopped [OF this, of loads] show ?thesis by auto
    next
      case True
      with Inr Pair have run: "fst (is_daemon_running env st) = Inr True" by simp
      show ?thesis
      proof (cases "handled (exec env ''pm2 jlist'')")
        case True
        from get_process_list_running [OF run True, of loads] show ?thesis
          by (auto split: option.splits captured.splits)
      next
        case False
        then obtain e where "exec env ''pm2 jlist'' = OtherException e"
          by (cases "exec env ''pm2 jlist''") (simp_all add: handled_def)
        with is_daemon_running_eq [OF run] running_shell_found [OF run]
        have "get_process_list loads env st
                = (Inl e, st\<lparr>trace := trace st @ [Probe, Emit (DaemonStatusReady True),
                                                     Run ''pm2 jlist'']\<rparr>)"
          by (simp add: get_process_list_def run_command_eq io_defs)
        then show ?thesis by auto
      qed
    qed
  qed
qed

lemma emit_report:
  "is_report (Emit sig) \<Longrightarrow>
   \<exists>evs. list_all is_report evs \<and> emit sig st = (Inr (), st\<lparr>trace := trace st @ evs\<rparr>)"
  by (rule exI [where x = "[Emit sig]"]) (simp add: io_defs)

lemma when_report:
  "is_report (Emit sig) \<Longrightarrow>
   \<exists>evs. list_all is_report evs
     \<and> when_io b (emit sig) st = (Inr (), st\<lparr>trace := trace st @ evs\<rparr>)"
  by (cases b) (auto simp add: when_io_def return_io_def intro: emit_report exI [where x = "[]"])

lemma finally_snd: "snd (finally_io m fin st) = snd (fin (snd (m st)))"
  by (simp add: finally_io_def split: prod.splits sum.splits)

lemma remove_descriptor_then:
  "bind_io (remove_descriptor t) (\<lambda>_. refresh) st = refresh (snd (remove_descriptor t st))"
  by (simp add: remove_descriptor_def io_defs split: option.splits)

lemma temp_name_not_empty: "temp_name env = Some f \<Longrightarrow> f \<noteq> []"
  by (auto simp add: temp_name_def)

lemma start_command_not_jlist: "start_command f \<noteq> ''pm2 jlist''"
  by (simp add: start_command_def)

text \<open>The body of the \<^verbatim>\<open>try\<close> block, on every path through it.\<close>

lemma start_body_shape:
  "\<exists>r evs. start_body env app_config f st
             = (r, st\<lparr>files := insert f (files st), trace := trace st @ CreateFile f # evs\<rparr>)
     \<and> (dump_ok env \<longrightarrow>
          (\<exists>evs'. evs = Dump f (JObj [(''apps'', JArr [JObj app_config])])
                          # Run (start_command f) # evs'
                 \<and> list_all is_report evs'))
     \<and> (\<not> dump_ok env \<longrightarrow> evs = [])"
proof (cases "dump_ok env")
  case False
  then have "start_body env app_config f st
               = (Inl OSError,
                  st\<lparr>files := insert f (files st), trace := trace st @ CreateFile f # []\<rparr>)"
    by (simp add: start_body_def io_defs)
  with False show ?thesis
    by blast
next
  case True
  let ?dump = "Dump f (JObj [(''apps'', JArr [JObj app_config])])"
  let ?st1 = "st\<lparr>files := insert f (files st), trace := trace st @ [CreateFile f, ?dump]\<rparr>"
  let ?report = "\<lambda>out. if_output out (\<lambda>obj.
                   case py_getitem app_config ''name'' of
                     Inl e \<Rightarrow> raise_io e
                   | Inr n \<Rightarrow>
                       emit (ActionFinished ''Process Started''
                               [Lit (''Attempted to start '' @ apostrophe), Val n,
                                Lit (apostrophe @ ''.'' @ newline), Lit (py_str obj)]))"
  have body: "start_body env app_config f st
                = bind_io (run_command env (start_command f) False) ?report ?st1"
    using True by (simp add: start_body_def io_defs)
  have report: "\<exists>r evs. list_all is_report evs
                  \<and> ?report out s = (r, s\<lparr>trace := trace s @ evs\<rparr>)" for out s
  proof (cases "out = None \<or> (\<exists>obj. out = Some obj \<and> \<not> truthy obj)
                  \<or> (\<exists>e. py_getitem app_config ''name'' = Inl e)")
    case True
    then have "\<exists>r. ?report out s = (r, s\<lparr>trace := trace s @ []\<rparr>)"
      by (cases out) (auto simp add: io_defs)
    moreover have "list_all is_report []"
      by simp
    ultimately show ?thesis
      by blast
  next
    case False
    then obtain obj n where "out = Some obj" "truthy obj" "py_getitem app_config ''name'' = Inr n"
      by (cases out; cases "py_getitem app_config ''name''") auto
    then have "?report out s
                 = (Inr (), s\<lparr>trace := trace s @
                      [Emit (ActionFinished ''Process Started''
                               [Lit (''Attempted to start '' @ apostrophe), Val n,
                                Lit (apostrophe @ ''.'' @ newline), Lit (py_str obj)])]\<rparr>)"
      by (simp add: io_defs)
    moreover have "list_all is_report
                     [Emit (ActionFinished ''Process Started''
                               [Lit (''Attempted to start '' @ apostrophe), Val n,
                                Lit (apostrophe @ ''.'' @ newline), Lit (py_str obj)])]"
      by (simp add: is_report_def)
    ultimately show ?thesis
      by blast
  qed
  show ?thesis
  proof (cases "handled (exec env (start_command f)) \<or> \<not> shell_found env")
    case False
    then have "\<not> handled (exec env (start_command f))" and "shell_found env"
      by simp_all
    from run_command_raises [OF this, of False ?st1]
    obtain e where "run_command env (start_command f) False ?st1
                      = (Inl e, ?st1\<lparr>trace := trace ?st1 @ [Run (start_command f)]\<rparr>)"
      by blast
    then have "start_body env app_config f st
                 = (Inl e, st\<lparr>files := insert f (files st),
                      trace := trace st @ CreateFile f # (?dump # Run (start_command f) # [])\<rparr>)"
      by (simp add: body bind_io_def)
    moreover have "list_all is_report []"
      by simp
    ultimately show ?thesis
      using True by blast
  next
    case h: True
    from run_command_returns [OF h, of False ?st1]
    obtain out evs1 where r1: "list_all is_report evs1"
      and r2: "run_command env (start_command f) False ?st1
                 = (Inr out, ?st1\<lparr>trace := trace ?st1 @ Run (start_command f) # evs1\<rparr>)"
      by blast
    let ?st2 = "?st1\<lparr>trace := trace ?st1 @ Run (start_command f) # evs1\<rparr>"
    from report [of out ?st2]
    obtain r evs2 where k1: "list_all is_report evs2"
      and k2: "?report out ?st2 = (r, ?st2\<lparr>trace := trace ?st2 @ evs2\<rparr>)"
      by blast
    have "start_body env app_config f st
            = (r, st\<lparr>files := insert f (files st),
                 trace := trace st @ CreateFile f #
                   (?dump # Run (start_command f) # (evs1 @ evs2))\<rparr>)"
      using r2 k2 by (simp add: body bind_io_def)
    moreover from r1 k1 have "list_all is_report (evs1 @ evs2)"
      by simp
    ultimately show ?thesis
      using True by blast
  qed
qed

text \<open>
  The state in which \<open>start_process\<close> starts its refresh: the descriptor was created,
  the body of the \<^verbatim>\<open>try\<close> block ran as far as it got, the descriptor was removed.
\<close>

lemma start_process_refresh:
  assumes "temp_name env = Some f"
  shows "\<exists>evs. snd (start_process loads env project_data st)
                 = snd (get_process_list loads env
                          (st\<lparr>files := files st - {f},
                              trace := trace st @ CreateFile f # evs @ [RemoveFile f]\<rparr>))
           \<and> (dump_ok env \<longrightarrow>
                (\<exists>evs'. evs = Dump f (JObj [(''apps'', JArr [JObj (app_config_of project_data)])])
                                # Run (start_command f) # evs'
                       \<and> list_all is_report evs'))
           \<and> (\<not> dump_ok env \<longrightarrow> evs = [])"
proof -
  from start_body_shape [of env "app_config_of project_data" f st]
  obtain r evs where
    body: "start_body env (app_config_of project_data) f st
             = (r, st\<lparr>files := insert f (files st), trace := trace st @ CreateFile f # evs\<rparr>)"
    and shape: "dump_ok env \<longrightarrow>
          (\<exists>evs'. evs = Dump f (JObj [(''apps'', JArr [JObj (app_config_of project_data)])])
                          # Run (start_command f) # evs'
                 \<and> list_all is_report evs')"
      "\<not> dump_ok env \<longrightarrow> evs = []"
    by blast
  let ?st1 = "st\<lparr>files := insert f (files st), trace := trace st @ CreateFile f # evs\<rparr>"
  have "f \<noteq> []"
    using assms by (rule temp_name_not_empty)
  then have "snd (remove_descriptor (Some f) ?st1)
               = st\<lparr>files := files st - {f},
                    trace := trace st @ CreateFile f # evs @ [RemoveFile f]\<rparr>"
    by (simp add: remove_descriptor_def io_defs)
  then have "snd (start_process loads env project_data st)
               = snd (get_process_list loads env
                        (st\<lparr>files := files st - {f},
                            trace := trace st @ CreateFile f # evs @ [RemoveFile f]\<rparr>))"
    using assms body
    by (simp add: start_process_def finally_snd remove_descriptor_then)
  with shape show ?thesis
    by blast
qed

lemma start_process_refresh_none:
  assumes "temp_name env = None"
  shows "snd (start_process loads env project_data st) = snd (get_process_list loads env st)"
  using assms
  by (simp add: start_process_def finally_snd remove_descriptor_then)
     (simp add: remove_descriptor_def io_defs)

text \<open>
  Claim C2: every mutating control operation triggers a full list refresh after its
  command, on every outcome of the command that the executor handles (success,
  non-zero exit, timeout, tool not found). Each operation ends as \<open>get_process_list\<close>
  ends when started in the state the command and its reports left; between the command
  and the refresh there are only reports (\<open>action_finished\<close> and \<open>error\<close> signals).
  For \<open>start_process\<close> the refresh runs in the \<^verbatim>\<open>finally\<close> block, so it also runs when
  the descriptor cannot be written and when the block raises.
\<close>

theorem control_operations_refresh:
  "(handled (exec env ''pm2 resurrect'') \<longrightarrow>
      (\<exists>evs. list_all is_report evs
         \<and> start_daemon loads env st
             = get_process_list loads env
                 (st\<lparr>trace := trace st @ Run ''pm2 resurrect'' # evs\<rparr>)))
 \<and> (handled (exec env ''pm2 kill'') \<longrightarrow>
      (\<exists>evs. list_all is_report evs
         \<and> kill_daemon loads env st
             = get_process_list loads env
                 (st\<lparr>trace := trace st @ Run ''pm2 kill'' # evs\<rparr>)))
 \<and> (handled (exec env (''pm2 stop '' @ n)) \<longrightarrow>
      (\<exists>evs. list_all is_report evs
         \<and> stop_process loads env n st
             = get_process_list loads env
                 (st\<lparr>trace := trace st @ Run (''pm2 stop '' @ n) # evs\<rparr>)))
 \<and> (handled (exec env (''pm2 restart '' @ n)) \<longrightarrow>
      (\<exists>evs. list_all is_report evs
         \<and> restart_process loads env n st
             = get_process_list loads env
                 (st\<lparr>trace := trace st @ Run (''pm2 restart '' @ n) # evs\<rparr>)))
 \<and> (handled (exec env (''pm2 reload '' @ n)) \<longrightarrow>
      (\<exists>evs. list_all is_report evs
         \<and> reload_process loads env n st
             = get_process_list loads env
                 (st\<lparr>trace := trace st @ Run (''pm2 reload '' @ n) # evs\<rparr>)))
 \<and> (handled (exec env (''pm2 delete '' @ n)) \<longrightarrow>
      (\<exists>evs. list_all is_report evs
         \<and> delete_process loads env n st
             = get_process_list loads env
                 (st\<lparr>trace := trace st @ Run (''pm2 delete '' @ n) # evs\<rparr>)))
 \<and> (handled (exec env ''pm2 stop all'') \<longrightarrow>
      (\<exists>evs. list_all is_report evs
         \<and> stop_all loads env st
             = get_process_list loads env
                 (st\<lparr>trace := trace st @ Run ''pm2 stop all'' # evs\<rparr>)))
 \<and> (handled (exec env ''pm2 restart all'') \<longrightarrow>
      (\<exists>evs. list_all is_report evs
         \<and> restart_all loads env st
             = get_process_list loads env
                 (st\<lparr>trace := trace st @ Run ''pm2 restart all'' # evs\<rparr>)))
 \<and> (\<forall>f. temp_name env = Some f \<and> dump_ok env \<longrightarrow>
      (\<exists>evs. list_all is_report evs
         \<and> snd (start_process loads env project_data st)
             = snd (get_process_list loads env
                 (st\<lparr>files := files st - {f},
                     trace := trace st @
                       [CreateFile f,
                        Dump f (JObj [(''apps'', JArr [JObj (app_config_of project_data)])]),
                        Run (start_command f)] @ evs @ [RemoveFile f]\<rparr>))))"
proof (intro conjI impI allI)
  assume "handled (exec env ''pm2 resurrect'')"
  then show "\<exists>evs. list_all is_report evs
         \<and> start_daemon loads env st
             = get_process_list loads env (st\<lparr>trace := trace st @ Run ''pm2 resurrect'' # evs\<rparr>)"
    unfolding start_daemon_def
    by (rule report_then_refresh) (rule emit_report, simp add: is_report_def)
next
  assume "handled (exec env ''pm2 kill'')"
  then show "\<exists>evs. list_all is_report evs
         \<and> kill_daemon loads env st
             = get_process_list loads env (st\<lparr>trace := trace st @ Run ''pm2 kill'' # evs\<rparr>)"
    unfolding kill_daemon_def
    by (rule report_then_refresh) (rule when_report, simp add: is_report_def)
next
  assume "handled (exec env (''pm2 stop '' @ n))"
  then show "\<exists>evs. list_all is_report evs
         \<and> stop_process loads env n st
             = get_process_list loads env (st\<lparr>trace := trace st @ Run (''pm2 stop '' @ n) # evs\<rparr>)"
    unfolding stop_process_def
    by (rule report_then_refresh) (rule if_output_report)
next
  assume "handled (exec env (''pm2 restart '' @ n))"
  then show "\<exists>evs. list_all is_report evs
         \<and> restart_process loads env n st
             = get_process_list loads env (st\<lparr>trace := trace st @ Run (''pm2 restart '' @ n) # evs\<rparr>)"
    unfolding restart_process_def
    by (rule report_then_refresh) (rule if_output_report)
next
  assume "handled (exec env (''pm2 reload '' @ n))"
  then show "\<exists>evs. list_all is_report evs
         \<and> reload_process loads env n st
             = get_process_list loads env (st\<lparr>trace := trace st @ Run (''pm2 reload '' @ n) # evs\<rparr>)"
    unfolding reload_process_def
    by (rule report_then_refresh) (rule if_output_report)
next
  assume "handled (exec env (''pm2 delete '' @ n))"
  then show "\<exists>evs. list_all is_report evs
         \<and> delete_process loads env n st
             = get_process_list loads env (st\<lparr>trace := trace st @ Run (''pm2 delete '' @ n) # evs\<rparr>)"
    unfolding delete_process_def
    by (rule report_then_refresh) (rule if_output_report)
next
  assume "handled (exec env ''pm2 stop all'')"
  then show "\<exists>evs. list_all is_report evs
         \<and> stop_all loads env st
             = get_process_list loads env (st\<lparr>trace := trace st @ Run ''pm2 stop all'' # evs\<rparr>)"
    unfolding stop_all_def
    by (rule report_then_refresh) (rule if_output_report)
next
  assume "handled (exec env ''pm2 restart all'')"
  then show "\<exists>evs. list_all is_report evs
         \<and> restart_all loads env st
             = get_process_list loads env (st\<lparr>trace := trace st @ Run ''pm2 restart all'' # evs\<rparr>)"
    unfolding restart_all_def
    by (rule report_then_refresh) (rule if_output_report)
next
  fix f
  assume a: "temp_name env = Some f \<and> dump_ok env"
  from start_process_refresh [of env f loads project_data st] a
  obtain evs evs' where
    "snd (start_process loads env project_data st)
       = snd (get_process_list loads env
                (st\<lparr>files := files st - {f},
                    trace := trace st @ CreateFile f # evs @ [RemoveFile f]\<rparr>))"
    "evs = Dump f (JObj [(''apps'', JArr [JObj (app_config_of project_data)])])
             # Run (start_command f) # evs'"
    "list_all is_report evs'"
    by blast
  then show "\<exists>evs. list_all is_report evs
         \<and> snd (start_process loads env project_data st)
             = snd (get_process_list loads env
                 (st\<lparr>files := files st - {f},
                     trace := trace st @
                       [CreateFile f,
                        Dump f (JObj [(''apps'', JArr [JObj (app_config_of project_data)])]),
                        Run (start_command f)] @ evs @ [RemoveFile f]\<rparr>))"
    by (intro exI [where x = evs']) simp
qed

text \<open>
  The theorem at one input: the daemon runs and every control command times out with
  nothing captured. Every hypothesis holds there, and each operation still refreshes.
\<close>

theorem control_operations_refresh_witness:
  "handled (exec timeout_env ''pm2 resurrect'')
   \<and> handled (exec timeout_env ''pm2 kill'')
   \<and> handled (exec timeout_env (''pm2 stop '' @ ''svc''))
   \<and> handled (exec timeout_env (''pm2 restart '' @ ''svc''))
   \<and> handled (exec timeout_env (''pm2 reload '' @ ''svc''))
   \<and> handled (exec timeout_env (''pm2 delete '' @ ''svc''))
   \<and> handled (exec timeout_env ''pm2 stop all'')
   \<and> handled (exec timeout_env ''pm2 restart all'')
   \<and> temp_name timeout_env = Some ''/tmp/tmpk3v9x0qa.json'' \<and> dump_ok timeout_env
   \<and> (\<exists>evs. list_all is_report evs
         \<and> delete_process json_loads timeout_env ''svc'' fresh_worker
             = get_process_list json_loads timeout_env
                 (fresh_worker\<lparr>trace := trace fresh_worker @ Run (''pm2 delete '' @ ''svc'') # evs\<rparr>))
   \<and> (\<exists>evs. list_all is_report evs
         \<and> snd (start_process json_loads timeout_env svc_project fresh_worker)
             = snd (get_process_list json_loads timeout_env
                 (fresh_worker\<lparr>files := files fresh_worker - {''/tmp/tmpk3v9x0qa.json''},
                     trace := trace fresh_worker @
                       [CreateFile ''/tmp/tmpk3v9x0qa.json'',
                        Dump ''/tmp/tmpk3v9x0qa.json''
                          (JObj [(''apps'', JArr [JObj (app_config_of svc_project)])]),
                        Run (start_command ''/tmp/tmpk3v9x0qa.json'')] @ evs
                       @ [RemoveFile ''/tmp/tmpk3v9x0qa.json'']\<rparr>)))"
proof -
  have h: "handled (exec timeout_env c)" for c
    by (simp add: timeout_env_def example_env_def handled_def)
  have t: "temp_name timeout_env = Some ''/tmp/tmpk3v9x0qa.json'' \<and> dump_ok timeout_env"
    by (simp add: timeout_env_def example_env_def temp_name_def)
  from control_operations_refresh
         [of timeout_env json_loads fresh_worker "''svc''" svc_project] h t
  show ?thesis
    by blast
qed

subsection \<open>The descriptor file of \<open>start_process\<close>\<close>

text \<open>
  Claim C9: for every project data and every outcome, \<open>start_process\<close> creates the
  descriptor file before it invokes the start command, and the file does not exist
  when the call returns: after a success, a non-zero exit, a timeout, a missing tool, an
  exception escaping the executor, a descriptor that cannot be written, and a
  \<^verbatim>\<open>KeyError\<close> for a project without a name. The first thing the operation does is to
  create the file; when the descriptor is written, the next events are the dump and
  the start command, and the removal comes after them; when it cannot be written the
  start command is not run. When no file can be created at all, no file is left and no
  command but the list query is run.
\<close>

theorem start_process_descriptor:
  "(\<forall>f. temp_name env = Some f \<longrightarrow>
      f \<notin> files (snd (start_process loads env project_data st))
      \<and> (\<exists>evs. trace (snd (start_process loads env project_data st))
                  = trace st @ CreateFile f # evs
             \<and> RemoveFile f \<in> set evs
             \<and> (dump_ok env \<longrightarrow>
                  (\<exists>evs'. evs = Dump f (JObj [(''apps'', JArr [JObj (app_config_of project_data)])])
                                  # Run (start_command f) # evs'
                         \<and> RemoveFile f \<in> set evs'))
             \<and> (\<not> dump_ok env \<longrightarrow> Run (start_command f) \<notin> set evs)))
 \<and> (temp_name env = None \<longrightarrow>
      files (snd (start_process loads env project_data st)) = files st
      \<and> (\<forall>c. Run c \<in> set (trace (snd (start_process loads env project_data st)))
             \<longrightarrow> Run c \<in> set (trace st) \<or> c = ''pm2 jlist''))"
proof (rule conjI)
  show "\<forall>f. temp_name env = Some f \<longrightarrow>
      f \<notin> files (snd (start_process loads env project_data st))
      \<and> (\<exists>evs. trace (snd (start_process loads env project_data st))
                  = trace st @ CreateFile f # evs
             \<and> RemoveFile f \<in> set evs
             \<and> (dump_ok env \<longrightarrow>
                  (\<exists>evs'. evs = Dump f (JObj [(''apps'', JArr [JObj (app_config_of project_data)])])
                                  # Run (start_command f) # evs'
                         \<and> RemoveFile f \<in> set evs'))
             \<and> (\<not> dump_ok env \<longrightarrow> Run (start_command f) \<notin> set evs))"
  proof (intro allI impI)
    fix f
    assume f: "temp_name env = Some f"
    from start_process_refresh [OF f, of loads project_data st]
    obtain evs where
      sp: "snd (start_process loads env project_data st)
             = snd (get_process_list loads env
                      (st\<lparr>files := files st - {f},
                          trace := trace st @ CreateFile f # evs @ [RemoveFile f]\<rparr>))"
      and ok: "dump_ok env \<longrightarrow>
            (\<exists>evs'. evs = Dump f (JObj [(''apps'', JArr [JObj (app_config_of project_data)])])
                            # Run (start_command f) # evs'
                   \<and> list_all is_report evs')"
      and bad: "\<not> dump_ok env \<longrightarrow> evs = []"
      by blast
    let ?st1 = "st\<lparr>files := files st - {f}, trace := trace st @ CreateFile f # evs @ [RemoveFile f]\<rparr>"
    from get_process_list_shape [of loads env ?st1]
    obtain r revs where
      gpl: "get_process_list loads env ?st1 = (r, ?st1\<lparr>trace := trace ?st1 @ revs\<rparr>)"
      and revs: "\<forall>e \<in> set revs. e = Probe \<or> e = Run ''pm2 jlist'' \<or> (\<exists>s. e = Emit s)"
      by blast
    have final: "snd (start_process loads env project_data st)
                   = st\<lparr>files := files st - {f},
                        trace := trace st @ CreateFile f # (evs @ RemoveFile f # revs)\<rparr>"
      using sp gpl by simp
    have gone: "f \<notin> files (snd (start_process loads env project_data st))"
      by (simp add: final)
    have tr: "trace (snd (start_process loads env project_data st))
                = trace st @ CreateFile f # (evs @ RemoveFile f # revs)"
      by (simp add: final)
    have rm: "RemoveFile f \<in> set (evs @ RemoveFile f # revs)"
      by simp
    have written: "\<exists>evs'. evs @ RemoveFile f # revs
                     = Dump f (JObj [(''apps'', JArr [JObj (app_config_of project_data)])])
                         # Run (start_command f) # evs'
                     \<and> RemoveFile f \<in> set evs'" if "dump_ok env"
    proof -
      from that ok obtain evs' where
        "evs = Dump f (JObj [(''apps'', JArr [JObj (app_config_of project_data)])])
                 # Run (start_command f) # evs'"
        by blast
      then have "evs @ RemoveFile f # revs
                   = Dump f (JObj [(''apps'', JArr [JObj (app_config_of project_data)])])
                       # Run (start_command f) # (evs' @ RemoveFile f # revs)
                 \<and> RemoveFile f \<in> set (evs' @ RemoveFile f # revs)"
        by simp
      then show ?thesis
        by blast
    qed
    have unwritten: "Run (start_command f) \<notin> set (evs @ RemoveFile f # revs)" if "\<not> dump_ok env"
    proof -
      from that bad have "evs = []"
        by simp
      moreover have "Run (start_command f) \<notin> set revs"
        using revs start_command_not_jlist [of f] by auto
      ultimately show ?thesis
        by simp
    qed
    from gone tr rm written unwritten
    show "f \<notin> files (snd (start_process loads env project_data st))
      \<and> (\<exists>evs. trace (snd (start_process loads env project_data st))
                  = trace st @ CreateFile f # evs
             \<and> RemoveFile f \<in> set evs
             \<and> (dump_ok env \<longrightarrow>
                  (\<exists>evs'. evs = Dump f (JObj [(''apps'', JArr [JObj (app_config_of project_data)])])
                                  # Run (start_command f) # evs'
                         \<and> RemoveFile f \<in> set evs'))
             \<and> (\<not> dump_ok env \<longrightarrow> Run (start_command f) \<notin> set evs))"
      by blast
  qed
next
  show "temp_name env = None \<longrightarrow>
      files (snd (start_process loads env project_data st)) = files st
      \<and> (\<forall>c. Run c \<in> set (trace (snd (start_process loads env project_data st)))
             \<longrightarrow> Run c \<in> set (trace st) \<or> c = ''pm2 jlist'')"
  proof
    assume n: "temp_name env = None"
    from get_process_list_shape [of loads env st]
    obtain r revs where
      gpl: "get_process_list loads env st = (r, st\<lparr>trace := trace st @ revs\<rparr>)"
      and revs: "\<forall>e \<in> set revs. e = Probe \<or> e = Run ''pm2 jlist'' \<or> (\<exists>s. e = Emit s)"
      by blast
    have final: "snd (start_process loads env project_data st) = st\<lparr>trace := trace st @ revs\<rparr>"
      using start_process_refresh_none [OF n, of loads project_data st] gpl by simp
    have "Run c \<in> set (trace st) \<or> c = ''pm2 jlist''"
      if "Run c \<in> set (trace (snd (start_process loads env project_data st)))" for c
    proof -
      from that have "Run c \<in> set (trace st) \<or> Run c \<in> set revs"
        by (simp add: final)
      with revs show ?thesis
        by auto
    qed
    moreover have "files (snd (start_process loads env project_data st)) = files st"
      by (simp add: final)
    ultimately show "files (snd (start_process loads env project_data st)) = files st
      \<and> (\<forall>c. Run c \<in> set (trace (snd (start_process loads env project_data st)))
             \<longrightarrow> Run c \<in> set (trace st) \<or> c = ''pm2 jlist'')"
      by blast
  qed
qed

text \<open>
  The theorem at one input: the project of the specification's scenario, started
  while the start command times out.
\<close>

theorem start_process_descriptor_witness:
  "temp_name timeout_env = Some ''/tmp/tmpk3v9x0qa.json''
   \<and> dump_ok timeout_env
   \<and> ''/tmp/tmpk3v9x0qa.json''
        \<notin> files (snd (start_process json_loads timeout_env svc_project fresh_worker))
   \<and> (\<exists>evs'. trace (snd (start_process json_loads timeout_env svc_project fresh_worker))
                 = trace fresh_worker @ CreateFile ''/tmp/tmpk3v9x0qa.json''
                     # Dump ''/tmp/tmpk3v9x0qa.json''
                         (JObj [(''apps'', JArr [JObj (app_config_of svc_project)])])
                     # Run (start_command ''/tmp/tmpk3v9x0qa.json'') # evs'
              \<and> RemoveFile ''/tmp/tmpk3v9x0qa.json'' \<in> set evs')"
proof -
  have t: "temp_name timeout_env = Some ''/tmp/tmpk3v9x0qa.json''" "dump_ok timeout_env"
    by (simp_all add: timeout_env_def example_env_def temp_name_def)
  from start_process_descriptor [of timeout_env json_loads svc_project fresh_worker] t
  show ?thesis
    by blast
qed

subsection \<open>The list texts that reach the window\<close>













section \<open>Properties of the main window\<close>

subsection \<open>The daemon state machine\<close>

lemma update_ui_keeps_state:
  "daemon_state (snd (update_ui loads s g)) = daemon_state g
   \<and> state_changes (snd (update_ui loads s g)) = state_changes g"
  by (auto simp add: update_ui_def Let_def show_error_message_def
           split: sum.splits prod.splits option.splits)

lemma update_daemon_status_step:
  "daemon_state (snd (update_daemon_status loads i g)) = Some (requested_state i)
   \<and> state_changes (snd (update_daemon_status loads i g))
       = state_changes g
         @ (if daemon_state g = Some (requested_state i) then []
            else [(daemon_state g, requested_state i)])"
proof (cases "Some (requested_state i) = daemon_state g")
  case True
  then show ?thesis
    by (simp add: update_daemon_status_def)
next
  case False
  then have ne: "daemon_state g \<noteq> Some (requested_state i)"
    by auto
  show ?thesis
  proof (cases "requested_state i")
    case STOPPED
    with False ne show ?thesis
      by (simp add: update_daemon_status_def update_ui_keeps_state)
  next
    case RUNNING
    with False ne show ?thesis
      by (simp add: update_daemon_status_def)
  next
    case PENDING
    with False ne show ?thesis
      by (simp add: update_daemon_status_def)
  qed
qed

lemma deliver_status:
  "state_changes (deliver loads (DaemonStatusReady b) g)
     = state_changes g
       @ (if daemon_state g = Some (if b then RUNNING else STOPPED) then []
          else [(daemon_state g, if b then RUNNING else STOPPED)])"
  using update_daemon_status_step [of loads "Liveness b" g]
  by (simp add: deliver_def requested_state_def)

lemma deliver_list:
  "state_changes (deliver loads (ListReady s) g) = state_changes g"
  by (simp add: deliver_def update_ui_keeps_state)

text \<open>
  Claim C1 as the specification states it: the machine never goes from Running to
  Stopped, or back, in one step. It does not hold. The window starts (Pending), the
  preloader reports a running daemon (Running), and later the periodic refresh finds
  that the daemon is gone: the boolean \<open>False\<close> takes the machine from Running to
  Stopped directly, and no Pending state lies between.
\<close>

theorem direct_transition_counterexample:
  "state_changes
     (fst (on_refresh_timer json_loads
             (example_env (CalledProcessError []) (Completed []) (Completed ''[]''))
             (snd (post_init_setup json_loads ''[]'' True
                     (snd (init_ui json_loads (new_gui [svc_project])))),
              fresh_worker)))
     = [(None, PENDING), (Some PENDING, RUNNING), (Some RUNNING, STOPPED)]"
proof -
  let ?env = "example_env (CalledProcessError []) (Completed []) (Completed ''[]'')"
  let ?g0 = "snd (init_ui json_loads (new_gui [svc_project]))"
  let ?g1 = "snd (post_init_setup json_loads ''[]'' True ?g0)"
  have g0: "daemon_state ?g0 = Some PENDING \<and> state_changes ?g0 = [(None, PENDING)]"
    using update_daemon_status_step
            [of json_loads "Request PENDING" "(new_gui [svc_project])\<lparr>overlay_text := ''loading state,,,''\<rparr>"]
    by (simp add: init_ui_def requested_state_def new_gui_def)
  have g1: "daemon_state ?g1 = Some RUNNING
            \<and> state_changes ?g1 = [(None, PENDING), (Some PENDING, RUNNING)]"
    using update_daemon_status_step [of json_loads "Liveness True" ?g0] g0
    by (cases "update_daemon_status json_loads (Liveness True) ?g0")
       (auto simp add: post_init_setup_def requested_state_def update_ui_keeps_state
             split: option.splits)
  have "fst (is_daemon_running ?env fresh_worker) = Inr False"
    by (simp add: example_probe_stopped)
  from get_process_list_stopped [OF this, of json_loads]
  have "fst (on_refresh_timer json_loads ?env (?g1, fresh_worker))
          = deliver json_loads (ListReady ''[]'')
              (deliver json_loads (DaemonStatusReady False) ?g1)"
    by (simp add: on_refresh_timer_def run_worker_def fresh_worker_def)
  with g1 show ?thesis
    by (simp add: deliver_list deliver_status)
qed

lemma deliver_extends: "prefix (state_changes g) (state_changes (deliver loads sig g))"
proof (cases sig)
  case (DaemonStatusReady b)
  then show ?thesis
    using update_daemon_status_step [of loads "Liveness b" g]
    by (simp add: deliver_def)
qed (simp_all add: deliver_def update_ui_keeps_state show_error_message_def
       show_action_result_def)

lemma deliver_all_extends:
  "prefix (state_changes g) (state_changes (fold (deliver loads) sigs g))"
proof (induction sigs arbitrary: g)
  case Nil
  then show ?case by simp
next
  case (Cons sig sigs)
  from deliver_extends [of g loads sig] Cons.IH [of "deliver loads sig g"]
  show ?case
    by (auto intro: prefix_order.order_trans)
qed

lemma run_worker_extends:
  "prefix (state_changes g) (state_changes (fst (run_worker loads slot (g, w))))"
  by (simp add: run_worker_def deliver_all_extends split: prod.splits)

text \<open>
  Claim C1, amended: \<open>update_daemon_status\<close> always puts the machine into the state
  its input names: Running for the boolean \<open>True\<close>, Stopped for \<open>False\<close>, and the state
  itself for an explicit request. A change is recorded exactly when that state differs
  from the current one. So a change between Running and Stopped in one step happens
  when the liveness boolean of a refresh contradicts the current state, and an
  explicit Pending request always leads to Pending: the two daemon requests of the
  user (start, and kill once confirmed) enter Pending before anything the worker
  reports is handled.
\<close>

theorem update_daemon_status_transition:
  "daemon_state (snd (update_daemon_status loads i g)) = Some (requested_state i)
   \<and> state_changes (snd (update_daemon_status loads i g))
       = state_changes g
         @ (if daemon_state g = Some (requested_state i) then []
            else [(daemon_state g, requested_state i)])
   \<and> requested_state (Request PENDING) = PENDING
   \<and> requested_state (Liveness True) = RUNNING
   \<and> requested_state (Liveness False) = STOPPED
   \<and> prefix (state_changes g
               @ (if daemon_state g = Some PENDING then [] else [(daemon_state g, PENDING)]))
        (state_changes (fst (handle_start_daemon_request loads env (g, w))))
   \<and> prefix (state_changes g
               @ (if daemon_state g = Some PENDING then [] else [(daemon_state g, PENDING)]))
        (state_changes (fst (gui_kill_daemon loads env True (g, w))))"
proof -
  have pending: "state_changes (snd (update_daemon_status loads (Request PENDING)
                                      (g\<lparr>overlay_text := t\<rparr>)))
                   = state_changes g
                     @ (if daemon_state g = Some PENDING then [] else [(daemon_state g, PENDING)])"
    for t
    using update_daemon_status_step [of loads "Request PENDING" "g\<lparr>overlay_text := t\<rparr>"]
    by (simp add: requested_state_def)
  have "prefix (state_changes g
               @ (if daemon_state g = Some PENDING then [] else [(daemon_state g, PENDING)]))
        (state_changes (fst (handle_start_daemon_request loads env (g, w))))"
    using run_worker_extends
            [of "snd (update_daemon_status loads (Request PENDING)
                        (g\<lparr>overlay_text := ''Starting PM2 Daemon...''\<rparr>))"
                loads "start_daemon loads env" w]
    by (simp add: handle_start_daemon_request_def pending)
  moreover have "prefix (state_changes g
               @ (if daemon_state g = Some PENDING then [] else [(daemon_state g, PENDING)]))
        (state_changes (fst (gui_kill_daemon loads env True (g, w))))"
    using run_worker_extends
            [of "snd (update_daemon_status loads (Request PENDING)
                        (g\<lparr>overlay_text := ''Killing PM2 Daemon...''\<rparr>))"
                loads "kill_daemon loads env" w]
    by (simp add: gui_kill_daemon_def pending)
  ultimately show ?thesis
    using update_daemon_status_step [of loads i g]
    by (simp add: requested_state_def)
qed

subsection \<open>The merged list\<close>

lemma map_of_dict_merge:
  assumes "is_dict b"
  shows "map_of (dict_merge a b) = map_of a ++ map_of b"
  using assms
proof (induction b arbitrary: a)
  case Nil
  then show ?case by (simp add: dict_merge_def)
next
  case (Cons kv b)
  obtain k v where kv: "kv = (k, v)" by (cases kv)
  from Cons.prems have fresh: "map_of b k = None" and b: "is_dict b"
    by (simp_all add: is_dict_def kv map_of_eq_None_iff)
  have "dict_merge a (kv # b) = dict_merge (py_setitem k v a) b"
    by (simp add: dict_merge_def kv)
  with Cons.IH [OF b, of "py_setitem k v a"] fresh show ?case
    by (auto simp add: kv py_setitem_def update_conv map_add_def fun_eq_iff split: option.splits)
qed

lemma dict_merge_empty: "dict_merge a [] = a"
  by (simp add: dict_merge_def)

text \<open>The record that \<open>find_live\<close> returns is the first one with the name of the project.\<close>

lemma find_live_Some:
  assumes "find_live cfg ps = Inr (Some live)"
  shows "\<exists>before rest. ps = before @ JObj live # rest
           \<and> py_getitem cfg ''name'' = Inr (py_get live ''name'')
           \<and> (\<forall>p \<in> set before. \<exists>d. p = JObj d \<and> py_get d ''name'' \<noteq> py_get live ''name'')"
  using assms
proof (induction ps)
  case Nil
  then show ?case by simp
next
  case (Cons p ps)
  from Cons.prems obtain d n where p: "p = JObj d" and n: "py_getitem cfg ''name'' = Inr n"
    by (cases p; cases "py_getitem cfg ''name''") simp_all
  show ?case
  proof (cases "py_get d ''name'' = n")
    case True
    with Cons.prems p n have "live = d" by simp
    with True p n show ?thesis
      by (intro exI [where x = "[]"] exI [where x = ps]) simp
  next
    case False
    with Cons.prems p n have "find_live cfg ps = Inr (Some live)" by simp
    from Cons.IH [OF this] obtain before rest where
      "ps = before @ JObj live # rest"
      "py_getitem cfg ''name'' = Inr (py_get live ''name'')"
      "\<forall>p \<in> set before. \<exists>d. p = JObj d \<and> py_get d ''name'' \<noteq> py_get live ''name''"
      by blast
    with False p n show ?thesis
      by (intro exI [where x = "p # before"] exI [where x = rest]) auto
  qed
qed

lemma find_live_None:
  assumes "find_live cfg ps = Inr None"
  shows "\<forall>p \<in> set ps. \<exists>d. p = JObj d \<and> py_getitem cfg ''name'' \<noteq> Inr (py_get d ''name'')"
  using assms
proof (induction ps)
  case Nil
  then show ?case by simp
next
  case (Cons p ps)
  from Cons.prems obtain d n where p: "p = JObj d" and n: "py_getitem cfg ''name'' = Inr n"
    by (cases p; cases "py_getitem cfg ''name''") simp_all
  with Cons.prems have ne: "py_get d ''name'' \<noteq> n" and "find_live cfg ps = Inr None"
    by (simp_all split: if_splits)
  with Cons.IH p n show ?case
    by auto
qed

lemma iter_proper:
  assumes "proper_records L" and "py_iter L = Inr ps" and "JObj d \<in> set ps"
  shows "is_dict d"
proof (cases L)
  case (JArr xs)
  with assms show ?thesis
    by (auto simp add: proper_records_def py_iter_def list_all_iff)
next
  case (JObj kvs)
  with assms show ?thesis
    by (auto simp add: py_iter_def)
next
  case (JStr s)
  with assms show ?thesis
    by (auto simp add: py_iter_def)
qed (use assms in \<open>simp_all add: py_iter_def\<close>)

lemma merge_one_found:
  assumes "merge_one cfg ps = Inr m" and "find_live cfg ps = Inr (Some live)"
  shows "m = dict_merge cfg live"
  using assms by (cases "live = []") (simp_all add: merge_one_def)

lemma merge_one_name:
  assumes "merge_one cfg ps = Inr m"
    and "\<forall>d. JObj d \<in> set ps \<longrightarrow> is_dict d"
  shows "py_get m ''name'' = py_get cfg ''name''"
proof (cases "find_live cfg ps")
  case (Inl e)
  with assms show ?thesis by (simp add: merge_one_def)
next
  case (Inr found)
  show ?thesis
  proof (cases found)
    case None
    with Inr assms show ?thesis
      by (simp add: merge_one_def dict_merge_empty)
  next
    case (Some live)
    with Inr assms have m: "m = dict_merge cfg live"
      by (simp add: merge_one_found)
    from find_live_Some [of cfg ps live] Inr Some
    have n: "py_getitem cfg ''name'' = Inr (py_get live ''name'')" and "JObj live \<in> set ps"
      by auto
    with assms(2) have "is_dict live"
      by blast
    with n show ?thesis
      by (auto simp add: m py_get_def py_getitem_def map_of_dict_merge map_add_def
               split: option.splits)
  qed
qed

lemma merge_known_names:
  assumes "merge_known D L = Inr M" and "proper_records L"
  shows "map (\<lambda>p. py_get p ''name'') M = map (\<lambda>p. py_get p ''name'') D"
  using assms(1)
proof (induction D arbitrary: M)
  case Nil
  then show ?case by simp
next
  case (Cons cfg D)
  from Cons.prems obtain ps m ms where
    ps: "py_iter L = Inr ps" and m: "merge_one cfg ps = Inr m"
    and ms: "merge_known D L = Inr ms" "M = m # ms"
    by (auto split: sum.splits)
  from iter_proper [OF assms(2) ps] have "\<forall>d. JObj d \<in> set ps \<longrightarrow> is_dict d"
    by blast
  with Cons.IH [of ms] merge_one_name [OF m] ms show ?case
    by simp
qed

lemma sort_by_name_result:
  assumes "sort_by_name ps = Inr M"
  shows "mset M = mset ps \<and> sorted (map name_str M)"
proof (cases "length ps \<le> 1")
  case True
  with assms have "M = ps"
    by (simp add: sort_by_name_def split: sum.splits)
  moreover from True have "sorted (map name_str ps)"
    by (cases ps) (auto simp add: Suc_le_eq)
  ultimately show ?thesis by simp
next
  case False
  with assms have "M = sort_key name_str ps"
    by (simp add: sort_by_name_def split: sum.splits if_splits)
  then show ?thesis
    by (simp add: sorted_sort_key)
qed

lemma string_name_iff: "has_string_name d \<longleftrightarrow> is_str (py_get d ''name'')"
  by (auto simp add: has_string_name_def is_str_def py_get_def split: option.splits json.splits)

lemma string_name_getitem:
  "has_string_name d \<Longrightarrow> py_getitem d ''name'' = Inr (py_get d ''name'')"
  by (auto simp add: has_string_name_def py_getitem_def py_get_def split: option.splits)

lemma find_live_total:
  assumes "list_all is_record ps" and "has_string_name cfg"
  shows "\<exists>found. find_live cfg ps = Inr found"
  using assms
  by (induction ps) (auto simp add: is_record_def string_name_getitem split: json.splits)

lemma merge_known_total:
  assumes "list_all has_string_name D" and "is_record_list L"
  shows "\<exists>M. merge_known D L = Inr M"
  using assms(1)
proof (induction D)
  case Nil
  then show ?case by simp
next
  case (Cons cfg D)
  from assms(2) obtain ps where L: "L = JArr ps" and ps: "list_all is_record ps"
    by (cases L) (simp_all add: is_record_list_def)
  from Cons.prems find_live_total [OF ps, of cfg] obtain found where
    "find_live cfg ps = Inr found"
    by auto
  moreover from Cons obtain ms where "merge_known D L = Inr ms"
    by auto
  ultimately show ?case
    by (simp add: L py_iter_def merge_one_def)
qed

lemma sort_keys_total:
  assumes "list_all has_string_name ps"
  shows "sort_keys ps = Inr (map (\<lambda>p. py_get p ''name'') ps)"
  using assms by (induction ps) (simp_all add: string_name_getitem)

lemma sort_by_name_total:
  assumes "list_all has_string_name ps"
  shows "\<exists>M. sort_by_name ps = Inr M"
proof -
  from assms have "list_all is_str (map (\<lambda>p. py_get p ''name'') ps)"
    by (simp add: list_all_iff string_name_iff)
  then show ?thesis
    by (simp add: sort_by_name_def sort_keys_total [OF assms])
qed

lemma names_string:
  assumes "map (\<lambda>p. py_get p ''name'') M = map (\<lambda>p. py_get p ''name'') D"
    and "list_all has_string_name D"
  shows "list_all has_string_name M"
proof -
  from assms(2) have "list_all is_str (map (\<lambda>p. py_get p ''name'') D)"
    by (simp add: list_all_iff string_name_iff)
  with assms(1) have "list_all is_str (map (\<lambda>p. py_get p ''name'') M)"
    by simp
  then show ?thesis
    by (simp add: list_all_iff string_name_iff)
qed

lemma reconcile_names:
  assumes "reconcile D L = Inr M" and "proper_records L"
  shows "sorted (map name_str M)
       \<and> mset (map (\<lambda>p. py_get p ''name'') M) = mset (map (\<lambda>p. py_get p ''name'') D)"
proof -
  from assms(1) obtain M' where mk: "merge_known D L = Inr M'" and so: "sort_by_name M' = Inr M"
    by (auto simp add: reconcile_def split: sum.splits)
  from sort_by_name_result [OF so] have "mset M = mset M'" and s: "sorted (map name_str M)"
    by simp_all
  then have "mset (map (\<lambda>p. py_get p ''name'') M) = mset (map (\<lambda>p. py_get p ''name'') M')"
    by (metis mset_map)
  with merge_known_names [OF mk assms(2)] s show ?thesis
    by simp
qed

lemma reconcile_total:
  assumes "list_all has_string_name D" and "is_record_list L" and "proper_records L"
  shows "\<exists>M. reconcile D L = Inr M"
proof -
  from merge_known_total [OF assms(1,2)] obtain M' where mk: "merge_known D L = Inr M'"
    by blast
  from names_string [OF merge_known_names [OF mk assms(3)] assms(1)]
  have "list_all has_string_name M'" .
  from sort_by_name_total [OF this] mk show ?thesis
    by (simp add: reconcile_def)
qed

text \<open>
  Claim C6: for every declared set and every live list, the merged list that
  \<open>update_ui\<close> stores is sorted by name and has, for each declared project, one entry
  with its name, and no other entry: the names of the merged list are the names of the
  declared projects, each as many times as it is declared (once, when the names of the
  store are unique), and a live record whose name no project declares has no entry.
  The merge returns a list whenever the declared names are strings and the live list
  is a list of records.
\<close>

theorem reconcile_sorted_names:
  assumes "proper_records L"
  shows "(list_all has_string_name D \<and> is_record_list L \<longrightarrow> (\<exists>M. reconcile D L = Inr M))
       \<and> (\<forall>M. reconcile D L = Inr M \<longrightarrow>
            sorted (map name_str M)
            \<and> mset (map (\<lambda>p. py_get p ''name'') M) = mset (map (\<lambda>p. py_get p ''name'') D)
            \<and> set (map (\<lambda>p. py_get p ''name'') M) = set (map (\<lambda>p. py_get p ''name'') D)
            \<and> (distinct (map (\<lambda>p. py_get p ''name'') D)
                 \<longrightarrow> distinct (map (\<lambda>p. py_get p ''name'') M))
            \<and> (list_all has_string_name D \<longrightarrow> list_all has_string_name M))"
proof (intro conjI allI impI)
  assume "list_all has_string_name D \<and> is_record_list L"
  with reconcile_total [of D L] assms show "\<exists>M. reconcile D L = Inr M"
    by blast
next
  fix M
  assume r: "reconcile D L = Inr M"
  from reconcile_names [OF r assms]
  show "sorted (map name_str M)"
    and m: "mset (map (\<lambda>p. py_get p ''name'') M) = mset (map (\<lambda>p. py_get p ''name'') D)"
    by simp_all
  from m show s: "set (map (\<lambda>p. py_get p ''name'') M) = set (map (\<lambda>p. py_get p ''name'') D)"
    by (rule mset_eq_setD)
  {
    assume "distinct (map (\<lambda>p. py_get p ''name'') D)"
    with m show "distinct (map (\<lambda>p. py_get p ''name'') M)"
      by (metis mset_eq_imp_distinct_iff)
  }
  {
    assume "list_all has_string_name D"
    then have "\<forall>n \<in> set (map (\<lambda>p. py_get p ''name'') D). is_str n"
      by (simp add: list_all_iff string_name_iff)
    with s have "\<forall>n \<in> set (map (\<lambda>p. py_get p ''name'') M). is_str n"
      by simp
    then show "list_all has_string_name M"
      by (simp add: list_all_iff string_name_iff)
  }
qed

lemma reconcile_example: "reconcile declared_ba live_za = Inr [merged_a, project_b]"
  by code_simp

lemma example_well_formed:
  "proper_records live_za" "list_all has_string_name declared_ba" "is_record_list live_za"
  by code_simp+

text \<open>
  The theorem at one input: the store holds \<open>b\<close> and \<open>a\<close>, the live list holds \<open>z\<close> and
  \<open>a\<close>. The merged list is \<open>a\<close>, \<open>b\<close>, and \<open>z\<close> has no entry.
\<close>

theorem reconcile_sorted_names_witness:
  "proper_records live_za \<and> list_all has_string_name declared_ba \<and> is_record_list live_za
   \<and> reconcile declared_ba live_za = Inr [merged_a, project_b]
   \<and> sorted (map name_str [merged_a, project_b])
   \<and> mset (map (\<lambda>p. py_get p ''name'') [merged_a, project_b])
       = mset (map (\<lambda>p. py_get p ''name'') declared_ba)
   \<and> list_all has_string_name [merged_a, project_b]"
  using reconcile_sorted_names [OF example_well_formed(1), of declared_ba]
    example_well_formed reconcile_example
  by blast

subsection \<open>The merged view of one project\<close>

lemma merge_known_member:
  assumes "merge_known D L = Inr M" and "m \<in> set M"
  shows "\<exists>cfg ps. cfg \<in> set D \<and> py_iter L = Inr ps \<and> merge_one cfg ps = Inr m"
  using assms
proof (induction D arbitrary: M)
  case Nil
  then show ?case by simp
next
  case (Cons c D)
  from Cons.prems(1) obtain ps m' ms where
    ps: "py_iter L = Inr ps" and m': "merge_one c ps = Inr m'"
    and ms: "merge_known D L = Inr ms" "M = m' # ms"
    by (auto split: sum.splits)
  show ?case
  proof (cases "m = m'")
    case True
    with ps m' show ?thesis by auto
  next
    case False
    with Cons.prems(2) ms have "m \<in> set ms" by simp
    from Cons.IH [OF ms(1) this] show ?thesis by auto
  qed
qed

lemma no_pm2_env_undeployed:
  assumes "map_of cfg ''pm2_env'' = None"
  shows "status_of cfg = Inr (JStr ''undeployed'') \<and> update_status cfg = Inr PresenceUnknown"
  using assms by (simp add: status_of_def update_status_def status_icon_def)

text \<open>
  Claim C7: each entry of the merged list is the merged view of a declared project.
  When the live list has a record with the name of the project, the view is the
  declared fields overlaid with the fields of the first such record, and the live
  value wins on a key both have. When no live record has the name, the view is the
  declared configuration itself, with no live field, and the sidebar reports its
  status as \<^verbatim>\<open>undeployed\<close> (the declared configuration has no field \<^verbatim>\<open>pm2_env\<close>: the
  store never writes one).
\<close>

theorem merged_view:
  assumes "proper_records L" and "reconcile D L = Inr M" and "m \<in> set M"
  shows "\<exists>cfg ps. cfg \<in> set D \<and> py_iter L = Inr ps \<and> merge_one cfg ps = Inr m
           \<and> (case find_live cfg ps of
                 Inl e \<Rightarrow> False
               | Inr None \<Rightarrow>
                   m = cfg
                   \<and> (\<forall>p \<in> set ps. \<exists>d. p = JObj d
                          \<and> py_getitem cfg ''name'' \<noteq> Inr (py_get d ''name''))
                   \<and> (map_of cfg ''pm2_env'' = None \<longrightarrow>
                        status_of m = Inr (JStr ''undeployed'')
                        \<and> update_status m = Inr PresenceUnknown)
               | Inr (Some live) \<Rightarrow>
                   (\<exists>before rest. ps = before @ JObj live # rest
                      \<and> (\<forall>p \<in> set before. \<exists>d. p = JObj d
                             \<and> py_get d ''name'' \<noteq> py_get live ''name''))
                   \<and> py_getitem cfg ''name'' = Inr (py_get live ''name'')
                   \<and> map_of m = map_of cfg ++ map_of live)"
proof -
  from assms(2) obtain M' where mk: "merge_known D L = Inr M'" and so: "sort_by_name M' = Inr M"
    by (auto simp add: reconcile_def split: sum.splits)
  from sort_by_name_result [OF so] have "set M = set M'"
    by (auto dest: mset_eq_setD)
  with assms(3) have "m \<in> set M'"
    by simp
  from merge_known_member [OF mk this] obtain cfg ps where
    cfg: "cfg \<in> set D" and ps: "py_iter L = Inr ps" and m: "merge_one cfg ps = Inr m"
    by blast
  have "case find_live cfg ps of
          Inl e \<Rightarrow> False
        | Inr None \<Rightarrow>
            m = cfg
            \<and> (\<forall>p \<in> set ps. \<exists>d. p = JObj d
                   \<and> py_getitem cfg ''name'' \<noteq> Inr (py_get d ''name''))
            \<and> (map_of cfg ''pm2_env'' = None \<longrightarrow>
                 status_of m = Inr (JStr ''undeployed'')
                 \<and> update_status m = Inr PresenceUnknown)
        | Inr (Some live) \<Rightarrow>
            (\<exists>before rest. ps = before @ JObj live # rest
               \<and> (\<forall>p \<in> set before. \<exists>d. p = JObj d
                      \<and> py_get d ''name'' \<noteq> py_get live ''name''))
            \<and> py_getitem cfg ''name'' = Inr (py_get live ''name'')
            \<and> map_of m = map_of cfg ++ map_of live"
  proof (cases "find_live cfg ps")
    case (Inl e)
    with m show ?thesis by (simp add: merge_one_def)
  next
    case (Inr found)
    show ?thesis
    proof (cases found)
      case None
      with Inr m have "m = cfg"
        by (simp add: merge_one_def dict_merge_empty)
      with Inr None find_live_None [of cfg ps] no_pm2_env_undeployed [of cfg]
      show ?thesis by simp
    next
      case (Some live)
      with Inr m have md: "m = dict_merge cfg live"
        by (simp add: merge_one_found)
      from find_live_Some [of cfg ps live] Inr Some obtain before rest where
        split: "ps = before @ JObj live # rest"
        and n: "py_getitem cfg ''name'' = Inr (py_get live ''name'')"
        and first: "\<forall>p \<in> set before. \<exists>d. p = JObj d \<and> py_get d ''name'' \<noteq> py_get live ''name''"
        by blast
      from split have "JObj live \<in> set ps" by simp
      from iter_proper [OF assms(1) ps this] have "map_of m = map_of cfg ++ map_of live"
        by (simp add: md map_of_dict_merge)
      with Inr Some split n first show ?thesis
        by auto
    qed
  qed
  with cfg ps m show ?thesis
    by blast
qed

text \<open>
  The theorem at the scenario of the specification: \<open>a\<close> and \<open>b\<close> are declared and only
  \<open>a\<close> is live. The entry of \<open>b\<close> is its declared configuration, reported as
  \<^verbatim>\<open>undeployed\<close>.
\<close>

theorem merged_view_witness:
  "proper_records live_za
   \<and> reconcile declared_ba live_za = Inr [merged_a, project_b]
   \<and> project_b \<in> set [merged_a, project_b]
   \<and> (\<exists>cfg ps. cfg \<in> set declared_ba \<and> py_iter live_za = Inr ps
          \<and> merge_one cfg ps = Inr project_b)
   \<and> status_of project_b = Inr (JStr ''undeployed'')
   \<and> update_status project_b = Inr PresenceUnknown"
proof -
  have s: "status_of project_b = Inr (JStr ''undeployed'')"
    "update_status project_b = Inr PresenceUnknown"
    by code_simp+
  have "project_b \<in> set [merged_a, project_b]"
    by simp
  from merged_view [OF example_well_formed(1) reconcile_example this] s
    example_well_formed(1) reconcile_example
  show ?thesis
    by auto
qed

subsection \<open>The diff of the list widget\<close>

lemma item_names_append: "item_names (xs @ ys) = item_names xs @ item_names ys"
  by (induction xs rule: item_names.induct) simp_all

lemma last_row_None: "last_row n items = None \<longleftrightarrow> n \<notin> set (item_names items)"
  by (induction items rule: item_names.induct) (auto split: option.splits)

lemma last_row_Some:
  "last_row n items = Some r \<Longrightarrow> r < length items \<and> (\<exists>ic. items ! r = ProjectItem n ic)"
proof (induction items arbitrary: r)
  case Nil
  then show ?case by simp
next
  case (Cons it items)
  show ?case
  proof (cases "last_row n items")
    case None
    with Cons.prems show ?thesis
      by (cases it) (auto split: if_splits)
  next
    case (Some r')
    with Cons.prems have "r = Suc r'" by simp
    with Cons.IH [OF Some] show ?thesis by simp
  qed
qed

lemma take_item_names:
  assumes "distinct (item_names items)" and "last_row n items = Some r"
  shows "item_names (take_item r items) = removeAll n (item_names items)"
  using assms
proof (induction items arbitrary: r)
  case Nil
  then show ?case by simp
next
  case (Cons it items)
  show ?case
  proof (cases "last_row n items")
    case None
    then have absent: "n \<notin> set (item_names items)"
      by (simp add: last_row_None)
    from None Cons.prems(2) obtain ic where "it = ProjectItem n ic" "r = 0"
      by (cases it) (auto split: if_splits)
    with absent show ?thesis
      by (simp add: take_item_def)
  next
    case (Some r')
    with Cons.prems(2) have r: "r = Suc r'" by simp
    from Some have present: "n \<in> set (item_names items)"
      using last_row_None [of n items] by auto
    from Cons.prems(1) have d: "distinct (item_names items)"
      by (cases it) simp_all
    from Cons.IH [OF d Some]
    have ih: "item_names (take_item r' items) = removeAll n (item_names items)" .
    show ?thesis
    proof (cases it)
      case DashboardItem
      with ih r show ?thesis
        by (simp add: take_item_def)
    next
      case (ProjectItem m ic)
      with Cons.prems(1) present have "m \<noteq> n" by auto
      with ih r ProjectItem show ?thesis
        by (simp add: take_item_def)
    qed
  qed
qed

lemma remove_missing_names:
  assumes "distinct (item_names items)" and "remove_missing ks new items = (items', ops)"
  shows "set (item_names items') = set (item_names items) - (set ks - set new)
       \<and> distinct (item_names items')"
  using assms
proof (induction ks arbitrary: items ops)
  case Nil
  then show ?case by simp
next
  case (Cons n ns)
  show ?case
  proof (cases "n \<in> set new")
    case True
    with Cons.prems have "remove_missing ns new items = (items', ops)" by simp
    from Cons.IH [OF Cons.prems(1) this] True show ?thesis by auto
  next
    case False
    show ?thesis
    proof (cases "last_row n items")
      case None
      with False Cons.prems have "remove_missing ns new items = (items', ops)" by simp
      from Cons.IH [OF Cons.prems(1) this] None show ?thesis
        by (auto simp add: last_row_None)
    next
      case (Some row)
      with False Cons.prems obtain ops' where
        rm: "remove_missing ns new (take_item row items) = (items', ops')"
        by (auto split: prod.splits)
      from take_item_names [OF Cons.prems(1) Some]
      have names: "item_names (take_item row items) = removeAll n (item_names items)" .
      with Cons.prems(1) have "distinct (item_names (take_item row items))"
        by (simp add: distinct_removeAll)
      from Cons.IH [OF this rm] names False show ?thesis
        by auto
    qed
  qed
qed

lemma remove_missing_noop:
  "set ks \<subseteq> set new \<Longrightarrow> remove_missing ks new items = (items, [])"
  by (induction ks) simp_all

lemma update_item_names:
  "r < length items \<Longrightarrow> items ! r = ProjectItem n ic0 \<Longrightarrow>
   item_names (items[r := ProjectItem n ic]) = item_names items"
proof (induction items arbitrary: r)
  case Nil
  then show ?case by simp
next
  case (Cons it items)
  then show ?case
    by (cases r; cases it) simp_all
qed

lemma updated_names:
  "item_names (case last_row n items of None \<Rightarrow> items
               | Some row \<Rightarrow> items[row := ProjectItem n ic]) = item_names items"
proof (cases "last_row n items")
  case None
  then show ?thesis by simp
next
  case (Some row)
  from last_row_Some [OF Some] update_item_names [of row items n _ ic] Some
  show ?thesis by auto
qed

lemma insert_item_names:
  "set (item_names (insert_item r (ProjectItem n ic) items)) = insert n (set (item_names items))"
proof -
  have "set (item_names (insert_item r (ProjectItem n ic) items))
          = insert n (set (item_names (take r items @ drop r items)))"
    unfolding insert_item_def item_names_append by auto
  then show ?thesis by simp
qed

lemma make_item_Inr:
  "make_item proj = Inr it \<Longrightarrow>
   \<exists>n ic. it = ProjectItem n ic \<and> py_getitem proj ''name'' = Inr n \<and> update_status proj = Inr ic"
  by (auto simp add: make_item_def split: sum.splits)

text \<open>What a loop over the data that ran to its end did to the names in the list.\<close>

lemma update_and_add_names:
  assumes "update_and_add ex i N items = (None, items', ops)"
  shows "set (item_names items')
           = set (item_names items)
             \<union> ({n. \<exists>proj \<in> set N. py_getitem proj ''name'' = Inr n} - set ex)
       \<and> (\<forall>proj \<in> set N. \<exists>n ic. py_getitem proj ''name'' = Inr n
                                   \<and> update_status proj = Inr ic)"
  using assms
proof (induction N arbitrary: i items ops)
  case Nil
  then show ?case by simp
next
  case (Cons proj rest)
  from Cons.prems obtain n where n: "py_getitem proj ''name'' = Inr n"
    by (cases "py_getitem proj ''name''") simp_all
  show ?case
  proof (cases "n \<in> set ex")
    case True
    with Cons.prems n obtain ic where ic: "update_status proj = Inr ic"
      by (cases "update_status proj") simp_all
    let ?items1 = "case last_row n items of None \<Rightarrow> items
                   | Some row \<Rightarrow> items[row := ProjectItem n ic]"
    from Cons.prems n True ic obtain ops' where
      "update_and_add ex (Suc i) rest ?items1 = (None, items', ops')"
      by (auto split: prod.splits)
    from Cons.IH [OF this] n ic True show ?thesis
      by (auto simp add: updated_names)
  next
    case False
    with Cons.prems n obtain it where it: "make_item proj = Inr it"
      by (cases "make_item proj") simp_all
    from make_item_Inr [OF it] n obtain ic where
      item: "it = ProjectItem n ic" and ic: "update_status proj = Inr ic"
      by auto
    from Cons.prems n False it obtain ops' where
      "update_and_add ex (Suc i) rest (insert_item (Suc i) it items) = (None, items', ops')"
      by (auto split: prod.splits)
    from Cons.IH [OF this] n ic False item show ?thesis
      by (auto simp add: insert_item_names)
  qed
qed

lemma is_update_widget: "is_update (UpdateWidget n ic)"
  by (simp add: is_update_def)

lemma update_and_add_only_updates:
  assumes "\<forall>proj \<in> set N. \<exists>n ic. py_getitem proj ''name'' = Inr n \<and> n \<in> set ex
                                  \<and> update_status proj = Inr ic"
  shows "\<exists>items' ops. update_and_add ex i N items = (None, items', ops)
           \<and> list_all is_update ops \<and> item_names items' = item_names items"
  using assms
proof (induction N arbitrary: i items)
  case Nil
  then show ?case by simp
next
  case (Cons proj rest)
  from Cons.prems obtain n ic where
    n: "py_getitem proj ''name'' = Inr n" "n \<in> set ex" "update_status proj = Inr ic"
    by auto
  let ?items1 = "case last_row n items of None \<Rightarrow> items
                 | Some row \<Rightarrow> items[row := ProjectItem n ic]"
  from Cons.prems have "\<forall>proj \<in> set rest. \<exists>n ic. py_getitem proj ''name'' = Inr n
                           \<and> n \<in> set ex \<and> update_status proj = Inr ic"
    by simp
  from Cons.IH [OF this, of "Suc i" ?items1] obtain items' ops where
    "update_and_add ex (Suc i) rest ?items1 = (None, items', ops)"
    "list_all is_update ops" "item_names items' = item_names ?items1"
    by blast
  with n show ?case
    by (simp add: is_update_widget updated_names)
qed

lemma new_data_keys_Inr:
  assumes "new_data_keys N = Inr new"
  shows "set new = {n. \<exists>proj \<in> set N. py_getitem proj ''name'' = Inr n}
       \<and> list_all hashable new"
  using assms
proof (induction N arbitrary: new)
  case Nil
  then show ?case by simp
next
  case (Cons p ps)
  from Cons.prems obtain n ns where
    "py_getitem p ''name'' = Inr n" "hashable n" "new_data_keys ps = Inr ns" "new = n # ns"
    by (auto split: sum.splits if_splits)
  with Cons.IH [of ns] show ?case
    by auto
qed

lemma set_existing_keys: "set (existing_keys items) = set (item_names items)"
  by (simp add: existing_keys_def)

text \<open>
  Claim C8: the diff is idempotent. The rendered list has no two project items with the
  same name (the names of the store are unique), and the diff against a merged list
  ran to its end. Then the diff of the resulting list against the same merged list
  runs to its end as well and performs only in-place updates of widgets: it takes no
  item out and inserts none, and the names in the rows stay as they are.
\<close>

theorem diff_idempotent:
  assumes "distinct (item_names items)"
    and "apply_diff items merged = (None, items', ops)"
  shows "\<exists>items'' ops'. apply_diff items' merged = (None, items'', ops')
           \<and> list_all is_update ops'
           \<and> item_names items'' = item_names items'"
proof -
  from assms(2) have h: "list_all hashable (item_names items)"
    by (auto simp add: apply_diff_def split: if_splits)
  with assms(2) obtain new where new: "new_data_keys merged = Inr new"
    by (cases "new_data_keys merged") (simp_all add: apply_diff_def)
  obtain items1 ops1 where rm:
    "remove_missing (existing_keys items) new items = (items1, ops1)"
    by (cases "remove_missing (existing_keys items) new items")
  with assms(2) h new obtain ops2 where ua:
    "update_and_add (existing_keys items) 0 merged items1 = (None, items', ops2)"
    by (auto simp add: apply_diff_def split: prod.splits)
  from new_data_keys_Inr [OF new]
  have new_set: "set new = {n. \<exists>proj \<in> set merged. py_getitem proj ''name'' = Inr n}"
    and new_hash: "list_all hashable new"
    by simp_all
  from remove_missing_names [OF assms(1) rm]
  have names1: "set (item_names items1) = set (item_names items) \<inter> set new"
    by (auto simp add: set_existing_keys)
  from update_and_add_names [OF ua]
  have names': "set (item_names items') = set (item_names items1) \<union> (set new - set (item_names items))"
    and ok: "\<forall>proj \<in> set merged. \<exists>n ic. py_getitem proj ''name'' = Inr n
                                         \<and> update_status proj = Inr ic"
    by (simp_all add: set_existing_keys new_set)
  from names1 names' have final: "set (item_names items') = set new"
    by auto
  with new_hash have h': "list_all hashable (item_names items')"
    by (simp add: list_all_iff)
  from final have "set (existing_keys items') \<subseteq> set new"
    by (simp add: set_existing_keys)
  then have rm': "remove_missing (existing_keys items') new items' = (items', [])"
    by (rule remove_missing_noop)
  from ok final new_set
  have "\<forall>proj \<in> set merged. \<exists>n ic. py_getitem proj ''name'' = Inr n
            \<and> n \<in> set (existing_keys items') \<and> update_status proj = Inr ic"
    by (fastforce simp add: set_existing_keys)
  from update_and_add_only_updates [OF this, of 0 items']
  obtain items'' ops' where
    "update_and_add (existing_keys items') 0 merged items' = (None, items'', ops')"
    "list_all is_update ops'" "item_names items'' = item_names items'"
    by blast
  with h' new rm' show ?thesis
    by (simp add: apply_diff_def)
qed

lemma diff_example:
  "apply_diff rendered_bc [merged_a, project_b]
     = (None, rendered_ab,
        [TakeItem 2, InsertItem 1 (ProjectItem (JStr ''a'') PresenceOnline),
         UpdateWidget (JStr ''b'') PresenceUnknown])"
  by code_simp

text \<open>
  The theorem at one input: the list shows \<open>b\<close> and \<open>c\<close>, the merged list holds \<open>a\<close>
  and \<open>b\<close>. The first diff takes \<open>c\<close> out, inserts \<open>a\<close> and updates \<open>b\<close>; the second
  one only updates.
\<close>

theorem diff_idempotent_witness:
  "distinct (item_names rendered_bc)
   \<and> apply_diff rendered_bc [merged_a, project_b]
       = (None, rendered_ab,
          [TakeItem 2, InsertItem 1 (ProjectItem (JStr ''a'') PresenceOnline),
           UpdateWidget (JStr ''b'') PresenceUnknown])
   \<and> (\<exists>items'' ops'. apply_diff rendered_ab [merged_a, project_b] = (None, items'', ops')
          \<and> list_all is_update ops'
          \<and> item_names items'' = item_names rendered_ab)"
proof -
  have d: "distinct (item_names rendered_bc)"
    by (simp add: rendered_bc_def)
  from diff_idempotent [OF d diff_example] d diff_example
  show ?thesis
    by blast
qed

text \<open>
  The hypothesis on the rendered list is an invariant of the window: the first
  population renders the names of the merged list, and a diff that runs to its end
  keeps the names of the rows distinct when the names of the merged list are.
\<close>

lemma getitem_get: "py_getitem p k = Inr v \<Longrightarrow> py_get p k = v"
  by (auto simp add: py_getitem_def py_get_def split: option.splits)

lemma add_items_names:
  assumes "add_items N items = (None, items', ops)"
  shows "item_names items' = item_names items @ map (\<lambda>p. py_get p ''name'') N"
  using assms
proof (induction N arbitrary: items ops)
  case Nil
  then show ?case by simp
next
  case (Cons proj rest)
  from Cons.prems obtain it where it: "make_item proj = Inr it"
    by (cases "make_item proj") simp_all
  from make_item_Inr [OF it] obtain n ic where
    item: "it = ProjectItem n ic" and n: "py_getitem proj ''name'' = Inr n"
    by blast
  from Cons.prems it obtain ops' where
    "add_items rest (items @ [it]) = (None, items', ops')"
    by (auto split: prod.splits)
  from Cons.IH [OF this] item getitem_get [OF n] show ?case
    by (simp add: item_names_append)
qed

lemma first_load_names:
  assumes "first_load merged = (None, items, ops)"
  shows "item_names items = map (\<lambda>p. py_get p ''name'') merged"
proof -
  from assms obtain ops' where "add_items merged [DashboardItem] = (None, items, ops')"
    by (auto simp add: first_load_def split: prod.splits)
  from add_items_names [OF this] show ?thesis
    by simp
qed

lemma insert_item_distinct:
  assumes "distinct (item_names items)" and "n \<notin> set (item_names items)"
  shows "distinct (item_names (insert_item r (ProjectItem n ic) items))"
proof -
  have "item_names items = item_names (take r items) @ item_names (drop r items)"
    by (simp add: item_names_append [symmetric])
  with assms show ?thesis
    by (auto simp add: insert_item_def item_names_append)
qed

lemma update_and_add_distinct:
  assumes "update_and_add ex i N items = (None, items', ops)"
    and "distinct (item_names items)"
    and "distinct (map (\<lambda>p. py_get p ''name'') N)"
    and "\<forall>p \<in> set N. py_get p ''name'' \<notin> set ex \<longrightarrow> py_get p ''name'' \<notin> set (item_names items)"
  shows "distinct (item_names items')"
  using assms
proof (induction N arbitrary: i items ops)
  case Nil
  then show ?case by simp
next
  case (Cons proj rest)
  from Cons.prems(1) obtain n where n: "py_getitem proj ''name'' = Inr n"
    by (cases "py_getitem proj ''name''") simp_all
  then have gn: "py_get proj ''name'' = n"
    by (rule getitem_get)
  show ?case
  proof (cases "n \<in> set ex")
    case True
    with Cons.prems(1) n obtain ic where ic: "update_status proj = Inr ic"
      by (cases "update_status proj") simp_all
    let ?items1 = "case last_row n items of None \<Rightarrow> items
                   | Some row \<Rightarrow> items[row := ProjectItem n ic]"
    from Cons.prems(1) n True ic obtain ops' where
      step: "update_and_add ex (Suc i) rest ?items1 = (None, items', ops')"
      by (auto split: prod.splits)
    from Cons.prems(2,3,4) show ?thesis
      by (intro Cons.IH [OF step]) (simp_all add: updated_names)
  next
    case False
    with Cons.prems(1) n obtain it where it: "make_item proj = Inr it"
      by (cases "make_item proj") simp_all
    from make_item_Inr [OF it] n obtain ic where item: "it = ProjectItem n ic"
      by auto
    from Cons.prems(1) n False it obtain ops' where
      step: "update_and_add ex (Suc i) rest (insert_item (Suc i) it items) = (None, items', ops')"
      by (auto split: prod.splits)
    from Cons.prems(4) False gn have fresh: "n \<notin> set (item_names items)"
      by simp
    show ?thesis
    proof (intro Cons.IH [OF step])
      show "distinct (item_names (insert_item (Suc i) it items))"
        using insert_item_distinct [OF Cons.prems(2) fresh] item by simp
      show "distinct (map (\<lambda>p. py_get p ''name'') rest)"
        using Cons.prems(3) by simp
      show "\<forall>p \<in> set rest. py_get p ''name'' \<notin> set ex
              \<longrightarrow> py_get p ''name'' \<notin> set (item_names (insert_item (Suc i) it items))"
      proof (intro ballI impI)
        fix p
        assume p: "p \<in> set rest" and "py_get p ''name'' \<notin> set ex"
        with Cons.prems(4) have "py_get p ''name'' \<notin> set (item_names items)"
          by simp
        moreover from Cons.prems(3)
        have "py_get proj ''name'' \<notin> (\<lambda>p. py_get p ''name'') ` set rest"
          by simp
        with p gn have "py_get p ''name'' \<noteq> n"
          by (auto simp add: image_iff)
        ultimately show "py_get p ''name'' \<notin> set (item_names (insert_item (Suc i) it items))"
          by (simp add: item insert_item_names)
      qed
    qed
  qed
qed

lemma apply_diff_distinct:
  assumes "apply_diff items merged = (None, items', ops)"
    and "distinct (item_names items)"
    and "distinct (map (\<lambda>p. py_get p ''name'') merged)"
  shows "distinct (item_names items')"
proof -
  from assms(1) have h: "list_all hashable (item_names items)"
    by (auto simp add: apply_diff_def split: if_splits)
  with assms(1) obtain new where new: "new_data_keys merged = Inr new"
    by (cases "new_data_keys merged") (simp_all add: apply_diff_def)
  obtain items1 ops1 where rm:
    "remove_missing (existing_keys items) new items = (items1, ops1)"
    by (cases "remove_missing (existing_keys items) new items")
  with assms(1) h new obtain ops2 where ua:
    "update_and_add (existing_keys items) 0 merged items1 = (None, items', ops2)"
    by (auto simp add: apply_diff_def split: prod.splits)
  from remove_missing_names [OF assms(2) rm]
  have "set (item_names items1) \<subseteq> set (item_names items)" and "distinct (item_names items1)"
    by auto
  then show ?thesis
    by (intro update_and_add_distinct [OF ua _ assms(3)]) (auto simp add: set_existing_keys)
qed

end
